theory Spec2Isabelle
  imports Main "HOL-Library.Sublist"
begin

section \<open>Constants of the script\<close>

text \<open>
  The embedding follows \<^verbatim>\<open>usv_script.py\<close>. The script drives a browser through
  Playwright; the browser and the web site are the environment. Every call into the
  driver is recorded as an event, and what the driver answers (a value or a raised
  exception) is a parameter of the model: the records below hold one answer per call
  site of the script.
\<close>

definition RETRY_INTERVAL :: nat where
  "RETRY_INTERVAL = 60"

definition PAGE_TIMEOUT :: nat where
  "PAGE_TIMEOUT = 15000"

definition SLEEP_AFTER_SELECT :: nat where
  "SLEEP_AFTER_SELECT = 10"

definition HEADLESS_MODE :: bool where
  "HEADLESS_MODE = True"

text \<open>The credentials read from the configuration file when the module is loaded.\<close>

record config =
  username :: string
  password :: string

subsection \<open>Selectors and addresses, as the script writes them\<close>

definition LOGIN_URL :: string where
  "LOGIN_URL = ''https://ais.usvisa-info.com/en-ca/niv/users/sign_in''"

definition EMAIL_INPUT :: string where
  "EMAIL_INPUT = ''input[name='user[email]']''"

definition PASSWORD_INPUT :: string where
  "PASSWORD_INPUT = ''input[name='user[password]']''"

definition POLICY_SCRIPT :: string where
  "POLICY_SCRIPT = ''document.querySelector('input[name='' @ [CHR 0x22] @ ''policy_confirmed''
     @ [CHR 0x22] @ '']').click()''"

definition COMMIT_BUTTON :: string where
  "COMMIT_BUTTON = ''input[type='submit'][name='commit']''"

definition LOGIN_SUCCESS :: string where
  "LOGIN_SUCCESS = ''div.application.attend_appointment.card.success''"

definition CONTINUE_LINK :: string where
  "CONTINUE_LINK = ''a.button.primary.small[href*='continue_actions']''"

definition BUSY_INDICATOR :: string where
  "BUSY_INDICATOR = ''#consulate_date_time_not_available''"

definition DATE_CONTROL :: string where
  "DATE_CONTROL = ''#appointments_consulate_appointment_date''"

definition TIME_CONTROL :: string where
  "TIME_CONTROL = ''#appointments_consulate_appointment_time''"

definition TIME_OPTIONS :: string where
  "TIME_OPTIONS = ''option[value]:not([value='' @ [CHR 0x27, CHR 0x27] @ ''])''"

definition FACILITY_CONTROL :: string where
  "FACILITY_CONTROL = ''#appointments_consulate_appointment_facility_id''"

definition FACILITY_OPTIONS :: string where
  "FACILITY_OPTIONS = ''#appointments_consulate_appointment_facility_id option[value]''"

definition SUBMIT_CONTROL :: string where
  "SUBMIT_CONTROL = ''#appointments_submit''"

section \<open>Exceptions, log records and driver events\<close>

text \<open>
  The script tells two kinds of exception apart: Playwright's \<^verbatim>\<open>TimeoutError\<close> and
  every other subclass of \<^verbatim>\<open>Exception\<close>. Each carries the text \<^verbatim>\<open>str(e)\<close> that the
  log messages interpolate. Exceptions outside \<^verbatim>\<open>Exception\<close> (a keyboard interrupt,
  the interpreter's exit) end the process from outside and are not modelled.
\<close>

datatype exn = TimeoutError string | OtherError string

fun exn_str :: "exn \<Rightarrow> string" where
  "exn_str (TimeoutError m) = m"
| "exn_str (OtherError m) = m"

datatype level = INFO | WARNING | ERROR

type_synonym handle = nat

text \<open>
  An element handle is named by the selector that found it; an \<^verbatim>\<open><option>\<close> element
  of a list of matches is named by the selector and its \<^verbatim>\<open>value\<close> attribute.
\<close>

datatype elem_ref = Elem string | OptionElem string "string option"

datatype event =
    Log level string
  | Sleep nat
  | ChromiumLaunch bool
  | NewContext handle
  | NewPage handle
  | CloseContext handle
  | CloseBrowser handle
  | Goto string
  | Fill string string
  | Evaluate string
  | Click string
  | WaitForSelector string nat
  | WaitForLoadState string
  | GetAttribute string string
  | PageSelectOption string "string option"
  | QuerySelector string
  | QuerySelectorAll string
  | ElemQuerySelectorAll elem_ref string
  | ElemGetAttribute elem_ref string
  | ElemInnerText elem_ref
  | ElemIsVisible elem_ref
  | ElemIsDisabled elem_ref
  | ElemSelectOption elem_ref "string option"
  | ElemClick elem_ref
  | OnDialog
  | DialogAccept

text \<open>The selector a driver call addresses, if it addresses one.\<close>

fun ref_selector :: "elem_ref \<Rightarrow> string" where
  "ref_selector (Elem s) = s"
| "ref_selector (OptionElem s v) = s"

fun event_target :: "event \<Rightarrow> string option" where
  "event_target (Fill s v) = Some s"
| "event_target (Click s) = Some s"
| "event_target (WaitForSelector s n) = Some s"
| "event_target (GetAttribute s a) = Some s"
| "event_target (PageSelectOption s v) = Some s"
| "event_target (QuerySelector s) = Some s"
| "event_target (QuerySelectorAll s) = Some s"
| "event_target (ElemQuerySelectorAll r s) = Some (ref_selector r)"
| "event_target (ElemGetAttribute r a) = Some (ref_selector r)"
| "event_target (ElemInnerText r) = Some (ref_selector r)"
| "event_target (ElemIsVisible r) = Some (ref_selector r)"
| "event_target (ElemIsDisabled r) = Some (ref_selector r)"
| "event_target (ElemSelectOption r v) = Some (ref_selector r)"
| "event_target (ElemClick r) = Some (ref_selector r)"
| "event_target ev = None"

section \<open>Computations: a trace of events and a result or a raised exception\<close>

type_synonym 'a resp = "exn + 'a"

type_synonym 'a io = "event list \<times> (exn + 'a)"

definition io_return :: "'a \<Rightarrow> 'a io" where
  "io_return x = ([], Inr x)"

definition io_raise :: "exn \<Rightarrow> 'a io" where
  "io_raise e = ([], Inl e)"

definition io_bind :: "'a io \<Rightarrow> ('a \<Rightarrow> 'b io) \<Rightarrow> 'b io" where
  "io_bind m f =
     (case m of
        (t, Inl e) \<Rightarrow> (t, Inl e)
      | (t, Inr x) \<Rightarrow> (case f x of (t', r) \<Rightarrow> (t @ t', r)))"

definition io_then :: "'a io \<Rightarrow> 'b io \<Rightarrow> 'b io" where
  "io_then m n = io_bind m (\<lambda>_. n)"

text \<open>\<^verbatim>\<open>try: m  except Exception as e: h e\<close>\<close>

definition io_except :: "'a io \<Rightarrow> (exn \<Rightarrow> 'a io) \<Rightarrow> 'a io" where
  "io_except m h =
     (case m of
        (t, Inl e) \<Rightarrow> (case h e of (t', r) \<Rightarrow> (t @ t', r))
      | (t, Inr x) \<Rightarrow> (t, Inr x))"

fun io_seq :: "unit io list \<Rightarrow> unit io" where
  "io_seq [] = io_return ()"
| "io_seq (m # ms) = io_then m (io_seq ms)"

text \<open>A call of the driver: the call is recorded, then the environment answers.\<close>

definition driver :: "event \<Rightarrow> 'a resp \<Rightarrow> 'a io" where
  "driver ev r = ([ev], r)"

definition emit :: "event \<Rightarrow> unit io" where
  "emit ev = ([ev], Inr ())"

definition logging :: "level \<Rightarrow> string \<Rightarrow> unit io" where
  "logging lvl msg = emit (Log lvl msg)"

text \<open>
  \<^verbatim>\<open>None.method()\<close> raises an AttributeError, which is an \<^verbatim>\<open>Exception\<close>; its text is
  \<^verbatim>\<open>'NoneType' object has no attribute 'method'\<close>.
\<close>

definition attribute_error :: "string \<Rightarrow> exn" where
  "attribute_error m =
     OtherError ([CHR 0x27] @ ''NoneType' object has no attribute '' @ [CHR 0x27] @ m
                 @ [CHR 0x27])"

text \<open>
  \<^verbatim>\<open>re.search(pattern, None)\<close> raises a TypeError, with this text from Python 3.11 on.
\<close>

definition type_error :: exn where
  "type_error = OtherError (''expected string or bytes-like object, got 'NoneType'' @ [CHR 0x27])"

text \<open>\<^verbatim>\<open>str(x)\<close> of an optional string, as an f-string prints it.\<close>

fun str_opt :: "string option \<Rightarrow> string" where
  "str_opt None = ''None''"
| "str_opt (Some s) = s"

text \<open>\<^verbatim>\<open>str(n)\<close> of a natural number.\<close>

fun str_nat :: "nat \<Rightarrow> string" where
  "str_nat n =
     (if n < 10 then [char_of (48 + n)]
      else str_nat (n div 10) @ [char_of (48 + n mod 10)])"

section \<open>The environment: what the page answers\<close>

text \<open>
  An \<^verbatim>\<open><option>\<close> element: its text, its \<^verbatim>\<open>value\<close> attribute (\<open>None\<close> when the
  element has none), and whether a call on its handle raises.
\<close>

record option_el =
  opt_text :: string
  opt_value :: "string option"
  text_fault :: "exn option"
  attr_fault :: "exn option"

definition fault_resp :: "exn option \<Rightarrow> 'a \<Rightarrow> 'a resp" where
  "fault_resp f x = (case f of Some e \<Rightarrow> Inl e | None \<Rightarrow> Inr x)"

text \<open>The time-selection control: its \<^verbatim>\<open><option>\<close> children in document order.\<close>

record dropdown =
  dd_options :: "option_el list resp"
  dd_select :: "unit resp"

text \<open>The scheduling form as it shows for the location that is selected.\<close>

record form =
  busy_error :: "bool resp option resp"
  date_click :: "unit resp"
  date_input :: "string option resp option resp"
  time_dropdown :: "dropdown option resp"

text \<open>
  The submit control: whether it is disabled, and what a click does (\<open>Inr True\<close>: the
  click raises a confirmation dialog, which the registered handler receives).
\<close>

record button =
  is_disabled_resp :: "bool resp"
  click_resp :: "bool resp"

text \<open>
  A location: its \<^verbatim>\<open><option>\<close> in the facility selector, and what the page answers
  once it is selected.
\<close>

record location =
  loc_option :: option_el
  select_resp :: "unit resp"
  wait_submit :: "unit resp"
  submit_button :: "button option resp"
  loc_form :: form

text \<open>The page of one browser session.\<close>

record page =
  goto_login :: "unit resp"
  fill_email :: "unit resp"
  fill_password :: "unit resp"
  evaluate_policy :: "unit resp"
  click_commit :: "unit resp"
  wait_success :: "unit resp"
  continue_href :: "string option resp"
  goto_appointment :: "unit resp"
  wait_load :: "unit resp"
  facility_options :: "location list resp"

text \<open>
  What launching a browser answers: the launch raises, or the browser starts and the new
  context raises, or the context opens and the new page raises, or all three succeed.
\<close>

datatype launch_resp =
    LaunchFails exn
  | NewContextFails handle exn
  | NewPageFails handle handle exn
  | Launched handle handle page

section \<open>The regular expression of the navigator\<close>

text \<open>
  \<^verbatim>\<open>re.search(r"/schedule/(\d+)/continue_actions", href)\<close>: the leftmost position where
  \<^verbatim>\<open>/schedule/\<close>, one or more digits and \<^verbatim>\<open>/continue_actions\<close> follow one another; the
  result is the group of digits. The digits are matched greedily; no shorter run can
  match, since the character after a shorter run is a digit and not \<^verbatim>\<open>/\<close>. Strings are
  byte strings here, where the digits are \<^verbatim>\<open>0\<close> to \<^verbatim>\<open>9\<close>.
\<close>

definition is_digit :: "char \<Rightarrow> bool" where
  "is_digit c = (c \<in> set ''0123456789'')"

fun strip_prefix :: "string \<Rightarrow> string \<Rightarrow> string option" where
  "strip_prefix [] s = Some s"
| "strip_prefix (p # ps) [] = None"
| "strip_prefix (p # ps) (c # cs) = (if p = c then strip_prefix ps cs else None)"

definition match_here :: "string \<Rightarrow> string option" where
  "match_here s =
     (case strip_prefix ''/schedule/'' s of
        None \<Rightarrow> None
      | Some r \<Rightarrow>
          (let ds = takeWhile is_digit r in
           if ds \<noteq> [] \<and> strip_prefix ''/continue_actions'' (dropWhile is_digit r) \<noteq> None
           then Some ds else None))"

fun re_search :: "string \<Rightarrow> string option" where
  "re_search [] = match_here []"
| "re_search (c # cs) =
     (case match_here (c # cs) of Some d \<Rightarrow> Some d | None \<Rightarrow> re_search cs)"

section \<open>The functions of the script\<close>

subsection \<open>login\<close>

definition login :: "config \<Rightarrow> page \<Rightarrow> unit io" where
  "login cfg pg =
     io_except
       (io_seq
          [driver (Goto LOGIN_URL) (goto_login pg),
           logging INFO ''Opened login page.'',
           driver (Fill EMAIL_INPUT (username cfg)) (fill_email pg),
           driver (Fill PASSWORD_INPUT (password cfg)) (fill_password pg),
           driver (Evaluate POLICY_SCRIPT) (evaluate_policy pg),
           driver (Click COMMIT_BUTTON) (click_commit pg),
           driver (WaitForSelector LOGIN_SUCCESS PAGE_TIMEOUT) (wait_success pg),
           logging INFO ''Successfully logged in.''])
       (\<lambda>e. case e of
              TimeoutError m \<Rightarrow>
                io_then (logging ERROR ''Login page did not load in time.'') (io_raise e)
            | OtherError m \<Rightarrow>
                io_then (logging ERROR (''Error during login: '' @ exn_str e)) (io_raise e))"

subsection \<open>navigate_to_appointment\<close>

definition appointment_url :: "string \<Rightarrow> string" where
  "appointment_url n = ''https://ais.usvisa-info.com/en-ca/niv/schedule/'' @ n @ ''/appointment''"

definition navigate_to_appointment :: "page \<Rightarrow> unit io" where
  "navigate_to_appointment pg =
     io_except
       (io_bind (driver (GetAttribute CONTINUE_LINK ''href'') (continue_href pg))
          (\<lambda>continue_button_href.
             io_bind
               (case continue_button_href of
                  None \<Rightarrow> io_raise type_error
                | Some h \<Rightarrow>
                    (case re_search h of
                       None \<Rightarrow> io_raise (attribute_error ''group'')
                     | Some n \<Rightarrow> io_return n))
               (\<lambda>appointment_number.
                  io_seq
                    [driver (Goto (appointment_url appointment_number)) (goto_appointment pg),
                     driver (WaitForLoadState ''load'') (wait_load pg),
                     logging INFO ''Navigated to the appointment scheduling page.''])))
       (\<lambda>e. io_then
               (logging ERROR (''Error navigating to the appointment page: '' @ exn_str e))
               (io_raise e))"

subsection \<open>select_date_and_time\<close>

text \<open>
  The CSS selector \<^verbatim>\<open>option[value]:not([value=''])\<close> matches the options that have a
  \<^verbatim>\<open>value\<close> attribute which is not the empty string.
\<close>

definition nonempty_value :: "option_el \<Rightarrow> bool" where
  "nonempty_value el = (case opt_value el of None \<Rightarrow> False | Some v \<Rightarrow> v \<noteq> [])"

definition map_resp :: "('a \<Rightarrow> 'b) \<Rightarrow> 'a resp \<Rightarrow> 'b resp" where
  "map_resp f r = (case r of Inl e \<Rightarrow> Inl e | Inr x \<Rightarrow> Inr (f x))"

definition get_value_attribute :: "string \<Rightarrow> option_el \<Rightarrow> string option io" where
  "get_value_attribute sel el =
     driver (ElemGetAttribute (OptionElem sel (opt_value el)) ''value'')
       (fault_resp (attr_fault el) (opt_value el))"

definition inner_text :: "string \<Rightarrow> option_el \<Rightarrow> string io" where
  "inner_text sel el =
     driver (ElemInnerText (OptionElem sel (opt_value el)))
       (fault_resp (text_fault el) (opt_text el))"

definition select_time :: "dropdown \<Rightarrow> bool io" where
  "select_time dd =
     io_bind
       (driver (ElemQuerySelectorAll (Elem TIME_CONTROL) TIME_OPTIONS)
          (map_resp (filter nonempty_value) (dd_options dd)))
       (\<lambda>available_times.
          case available_times of
            [] \<Rightarrow> io_then (logging WARNING ''No available times found.'') (io_return False)
          | el # _ \<Rightarrow>
              io_bind (get_value_attribute TIME_OPTIONS el)
                (\<lambda>first_available_time.
                   io_then
                     (driver (ElemSelectOption (Elem TIME_CONTROL) first_available_time)
                        (dd_select dd))
                     (io_then
                        (logging INFO
                           (''Selected available time: '' @ str_opt first_available_time))
                        (io_return True))))"

definition select_date_and_time_body :: "form \<Rightarrow> bool io" where
  "select_date_and_time_body f =
     io_bind (driver (QuerySelector BUSY_INDICATOR) (busy_error f))
       (\<lambda>busy.
          io_bind
            (case busy of
               None \<Rightarrow> io_return False
             | Some vis \<Rightarrow> driver (ElemIsVisible (Elem BUSY_INDICATOR)) vis)
            (\<lambda>visible.
               if visible then
                 io_then (logging WARNING ''System is busy. No date or time available.'')
                   (io_return False)
               else
                 io_then (driver (Click DATE_CONTROL) (date_click f))
                   (io_bind (driver (QuerySelector DATE_CONTROL) (date_input f))
                      (\<lambda>date_el.
                         io_bind
                           (case date_el of
                              None \<Rightarrow> io_raise (attribute_error ''get_attribute'')
                            | Some attr \<Rightarrow>
                                driver (ElemGetAttribute (Elem DATE_CONTROL) ''value'') attr)
                           (\<lambda>available_date.
                              if available_date \<noteq> None \<and> available_date \<noteq> Some [] then
                                io_then
                                  (logging INFO
                                     (''Selected available date: '' @ str_opt available_date))
                                  (io_bind (driver (QuerySelector TIME_CONTROL) (time_dropdown f))
                                     (\<lambda>dd.
                                        case dd of
                                          None \<Rightarrow>
                                            io_raise (attribute_error ''query_selector_all'')
                                        | Some d \<Rightarrow> select_time d))
                              else
                                io_then (logging WARNING ''No available date found.'')
                                  (io_return False))))))"

definition select_date_and_time :: "form \<Rightarrow> bool io" where
  "select_date_and_time f =
     io_except (select_date_and_time_body f)
       (\<lambda>e. io_then (logging ERROR (''Error selecting date and time: '' @ exn_str e))
               (io_return False))"

subsection \<open>check_and_reschedule\<close>

text \<open>
  The CSS selector \<^verbatim>\<open>option[value]\<close> matches the options of the facility selector that
  have a \<^verbatim>\<open>value\<close> attribute.
\<close>

definition has_value :: "location \<Rightarrow> bool" where
  "has_value l = (opt_value (loc_option l) \<noteq> None)"

text \<open>
  The confirmation handler is registered before the click; when the click raises a
  dialog, the handler accepts it and logs.
\<close>

definition click_submit :: "button \<Rightarrow> unit io" where
  "click_submit b =
     io_bind (driver (ElemClick (Elem SUBMIT_CONTROL)) (click_resp b))
       (\<lambda>dialog.
          if dialog then io_then (emit DialogAccept)
                           (logging INFO ''Confirmed the reschedule action.'')
          else io_return ())"

text \<open>
  One pass of the body of the \<^verbatim>\<open>for\<close> loop. The result \<open>True\<close> stands for the
  \<^verbatim>\<open>return True\<close> inside the loop; \<open>False\<close> for a pass that ran to its end.
\<close>

definition location_body :: "location \<Rightarrow> bool io" where
  "location_body l =
     io_bind (inner_text FACILITY_OPTIONS (loc_option l))
       (\<lambda>location_name.
     io_bind (get_value_attribute FACILITY_OPTIONS (loc_option l))
       (\<lambda>location_value.
     io_then (driver (PageSelectOption FACILITY_CONTROL location_value) (select_resp l))
    (io_then (logging INFO (''Checking location: '' @ location_name))
    (io_then (driver (WaitForSelector SUBMIT_CONTROL PAGE_TIMEOUT) (wait_submit l))
    (io_bind (driver (QuerySelector SUBMIT_CONTROL) (submit_button l))
       (\<lambda>reschedule_button.
     io_bind
       (case reschedule_button of
          None \<Rightarrow> io_return False
        | Some b \<Rightarrow>
            io_bind (driver (ElemIsDisabled (Elem SUBMIT_CONTROL)) (is_disabled_resp b))
              (\<lambda>disabled.
                 if \<not> disabled then
                   io_bind (select_date_and_time (loc_form l))
                     (\<lambda>found.
                        if found then
                          io_then (emit OnDialog)
                         (io_then (click_submit b)
                         (io_then
                            (logging INFO
                               (''Rescheduled successfully at location: '' @ location_name @ ''.''))
                            (io_return True)))
                        else io_return False)
                 else io_return False))
       (\<lambda>booked.
          if booked then io_return True
          else
            io_then (logging INFO (''No available appointments at '' @ location_name @ ''.''))
           (io_then (emit (Sleep SLEEP_AFTER_SELECT))
              (io_return False)))))))))"

fun for_each_location :: "location list \<Rightarrow> bool io" where
  "for_each_location [] =
     io_then (logging INFO ''Cycle completed. Restarting the check for each location.'')
       (io_return False)"
| "for_each_location (l # ls) =
     io_bind (location_body l)
       (\<lambda>booked. if booked then io_return True else for_each_location ls)"

definition check_and_reschedule :: "page \<Rightarrow> bool io" where
  "check_and_reschedule pg =
     io_except
       (io_bind
          (driver (QuerySelectorAll FACILITY_OPTIONS)
             (map_resp (filter has_value) (facility_options pg)))
          for_each_location)
       (\<lambda>e. io_then
               (logging ERROR (''Error during location check and reschedule: '' @ exn_str e))
               (io_return False))"

subsection \<open>launch_browser_in_incognito and login_and_schedule\<close>

text \<open>The browsers and contexts that are open.\<close>

record world =
  live :: "handle set"

text \<open>
  The local variables of \<^verbatim>\<open>login_and_schedule\<close> that the \<^verbatim>\<open>finally\<close> block looks up:
  unbound (\<open>None\<close>) until the first launch returns, and bound to the handles of the
  last launch that returned from then on.
\<close>

record locals =
  browser_var :: "handle option"
  context_var :: "handle option"
  page_var :: "page option"

definition launch_browser_in_incognito ::
  "launch_resp \<Rightarrow> world \<Rightarrow> (handle \<times> handle \<times> page) io \<times> world" where
  "launch_browser_in_incognito r wd =
     (case r of
        LaunchFails e \<Rightarrow> (([ChromiumLaunch HEADLESS_MODE], Inl e), wd)
      | NewContextFails b e \<Rightarrow>
          (([ChromiumLaunch HEADLESS_MODE, NewContext b], Inl e),
           wd\<lparr>live := insert b (live wd)\<rparr>)
      | NewPageFails b c e \<Rightarrow>
          (([ChromiumLaunch HEADLESS_MODE, NewContext b, NewPage c], Inl e),
           wd\<lparr>live := insert c (insert b (live wd))\<rparr>)
      | Launched b c pg \<Rightarrow>
          (([ChromiumLaunch HEADLESS_MODE, NewContext b, NewPage c], Inr (b, c, pg)),
           wd\<lparr>live := insert c (insert b (live wd))\<rparr>))"

text \<open>
  Modelled from the spec: \<^verbatim>\<open>context.close()\<close> and \<^verbatim>\<open>browser.close()\<close> are the driver's
  \<^verbatim>\<open>Session.close()\<close>, code of Playwright and not of the script. Section 6 of the
  specification names no failure for it (as it does for the form interactions), and
  section 4.5 calls the release idempotent: closing a handle takes it out of the open
  ones, and closing a handle that is not open changes nothing.
\<close>

definition close_context :: "handle \<Rightarrow> world \<Rightarrow> event list \<times> world" where
  "close_context c wd = ([CloseContext c], wd\<lparr>live := live wd - {c}\<rparr>)"

text \<open>
  Modelled from the spec: \<^verbatim>\<open>browser.close()\<close>, the same \<^verbatim>\<open>Session.close()\<close> of the driver
  for the browser handle: it does not fail, and closing twice changes nothing.
\<close>

definition close_browser :: "handle \<Rightarrow> world \<Rightarrow> event list \<times> world" where
  "close_browser b wd = ([CloseBrowser b], wd\<lparr>live := live wd - {b}\<rparr>)"

text \<open>
  The statements of the \<^verbatim>\<open>try\<close> block that follow the launch. The result \<open>True\<close>
  stands for the \<^verbatim>\<open>break\<close>.
\<close>

definition try_statements :: "config \<Rightarrow> page \<Rightarrow> bool io" where
  "try_statements cfg pg =
     io_then (login cfg pg)
    (io_then (navigate_to_appointment pg)
    (io_bind (check_and_reschedule pg)
       (\<lambda>booked.
          if booked then
            io_then (logging INFO ''Appointment successfully rescheduled. Exiting.'')
              (io_return True)
          else io_return False)))"

text \<open>
  The \<^verbatim>\<open>try\<close> block of one pass of the \<^verbatim>\<open>while\<close> loop. The three locals are assigned
  together, once the launch has returned.
\<close>

definition try_block ::
  "config \<Rightarrow> launch_resp \<Rightarrow> locals \<Rightarrow> world \<Rightarrow> bool io \<times> locals \<times> world" where
  "try_block cfg r l wd =
     (case launch_browser_in_incognito r wd of
        ((t, Inl e), wd') \<Rightarrow> ((t, Inl e), l, wd')
      | ((t, Inr (b, c, pg)), wd') \<Rightarrow>
          (io_then (t, Inr ()) (try_statements cfg pg),
           l\<lparr>browser_var := Some b, context_var := Some c, page_var := Some pg\<rparr>,
           wd'))"

text \<open>The two \<^verbatim>\<open>except\<close> clauses: both log and let the loop go on.\<close>

definition except_clauses :: "exn \<Rightarrow> bool io" where
  "except_clauses e =
     (case e of
        TimeoutError m \<Rightarrow>
          io_then
            (logging ERROR
               (''Timeout error: '' @ exn_str e @ ''. Retrying in '' @ str_nat RETRY_INTERVAL
                @ '' seconds...''))
            (io_return False)
      | OtherError m \<Rightarrow>
          io_then
            (logging ERROR
               (''Encountered an error: '' @ exn_str e @ ''. Retrying in ''
                @ str_nat RETRY_INTERVAL @ '' seconds...''))
            (io_return False))"

text \<open>
  The \<^verbatim>\<open>finally\<close> block: each of the two variables is closed if it is bound, then the
  script sleeps.
\<close>

definition finally_block :: "locals \<Rightarrow> world \<Rightarrow> event list \<times> world" where
  "finally_block l wd =
     (let (t1, wd1) = (case context_var l of
                         None \<Rightarrow> ([], wd)
                       | Some c \<Rightarrow> close_context c wd);
          (t2, wd2) = (case browser_var l of
                         None \<Rightarrow> ([], wd1)
                       | Some b \<Rightarrow> close_browser b wd1)
      in (t1 @ t2 @ [Sleep RETRY_INTERVAL], wd2))"

text \<open>How one pass of the \<^verbatim>\<open>while True\<close> loop ends.\<close>

datatype control = Break | Continue | Propagate exn

definition cycle ::
  "config \<Rightarrow> launch_resp \<Rightarrow> locals \<Rightarrow> world \<Rightarrow> control \<times> locals \<times> world \<times> event list" where
  "cycle cfg r l wd =
     (case try_block cfg r l wd of
        (m, l', wd') \<Rightarrow>
          (case io_except m except_clauses of
             (t, res) \<Rightarrow>
               (case finally_block l' wd' of
                  (tf, wd'') \<Rightarrow>
                    ((case res of
                        Inr True \<Rightarrow> Break
                      | Inr False \<Rightarrow> Continue
                      | Inl e \<Rightarrow> Propagate e),
                     l', wd'', t @ tf))))"

text \<open>
  The \<^verbatim>\<open>while True\<close> loop can run forever. It is run here against the answers of the
  environment for the next passes, one launch answer (with its page) for each: the list
  is the fuel. \<open>Exited\<close>: the loop was left by \<^verbatim>\<open>break\<close> and the function returned.
  \<open>Crashed\<close>: an exception left the function. \<open>Looping\<close>: the answers are used up and the
  loop is about to start its next pass. The \<^verbatim>\<open>with sync_playwright()\<close> statement around
  the loop, which starts and stops the driver, is left out.
\<close>

datatype status = Exited | Crashed exn | Looping

fun while_true ::
  "config \<Rightarrow> launch_resp list \<Rightarrow> locals \<Rightarrow> world \<Rightarrow> status \<times> locals \<times> world \<times> event list" where
  "while_true cfg [] l wd = (Looping, l, wd, [])"
| "while_true cfg (r # rs) l wd =
     (case cycle cfg r l wd of
        (Break, l', wd', t) \<Rightarrow> (Exited, l', wd', t)
      | (Propagate e, l', wd', t) \<Rightarrow> (Crashed e, l', wd', t)
      | (Continue, l', wd', t) \<Rightarrow>
          (case while_true cfg rs l' wd' of
             (s, l'', wd'', t') \<Rightarrow> (s, l'', wd'', t @ t')))"

definition unbound :: locals where
  "unbound = \<lparr>browser_var = None, context_var = None, page_var = None\<rparr>"

definition login_and_schedule ::
  "config \<Rightarrow> launch_resp list \<Rightarrow> status \<times> locals \<times> world \<times> event list" where
  "login_and_schedule cfg rs = while_true cfg rs unbound \<lparr>live = {}\<rparr>"

section \<open>Reading a trace\<close>

text \<open>The values handed to \<^verbatim>\<open>select_option\<close> on the time control, in order.\<close>

definition time_selections :: "event list \<Rightarrow> string option list" where
  "time_selections t =
     concat (map (\<lambda>ev. case ev of
                         ElemSelectOption r v \<Rightarrow> if r = Elem TIME_CONTROL then [v] else []
                       | _ \<Rightarrow> []) t)"

text \<open>The values handed to \<^verbatim>\<open>page.select_option\<close> on the facility control, in order.\<close>

definition facility_selections :: "event list \<Rightarrow> string option list" where
  "facility_selections t =
     concat (map (\<lambda>ev. case ev of
                         PageSelectOption s v \<Rightarrow> if s = FACILITY_CONTROL then [v] else []
                       | _ \<Rightarrow> []) t)"


text \<open>
  The events that \<^verbatim>\<open>login\<close>, \<^verbatim>\<open>navigate_to_appointment\<close> and \<^verbatim>\<open>check_and_reschedule\<close>
  can produce: every driver call but those that open and close a session, and no sleep
  but the one between two locations.
\<close>

definition page_event :: "event \<Rightarrow> bool" where
  "page_event ev =
     (case ev of
        ChromiumLaunch h \<Rightarrow> False
      | NewContext b \<Rightarrow> False
      | NewPage c \<Rightarrow> False
      | CloseContext c \<Rightarrow> False
      | CloseBrowser b \<Rightarrow> False
      | Sleep n \<Rightarrow> n = SLEEP_AFTER_SELECT
      | _ \<Rightarrow> True)"

text \<open>Every event of a computation satisfies \<open>P\<close>.\<close>

definition io_all :: "(event \<Rightarrow> bool) \<Rightarrow> 'a io \<Rightarrow> bool" where
  "io_all P m = list_all P (fst m)"

text \<open>The trace of a pass or of a run of the loop.\<close>

definition trace_of :: "'a \<times> 'b \<times> 'c \<times> event list \<Rightarrow> event list" where
  "trace_of x = snd (snd (snd x))"

text \<open>A pass books when the launch, the login and the navigation return and the sweep
  returns \<open>True\<close>.\<close>

definition books :: "config \<Rightarrow> launch_resp \<Rightarrow> bool" where
  "books cfg r =
     (case r of
        Launched b c pg \<Rightarrow>
          snd (login cfg pg) = Inr () \<and> snd (navigate_to_appointment pg) = Inr ()
          \<and> snd (check_and_reschedule pg) = Inr True
      | _ \<Rightarrow> False)"

section \<open>Example environments\<close>

definition an_option :: "string \<Rightarrow> option_el" where
  "an_option v = \<lparr>opt_text = v, opt_value = Some v, text_fault = None, attr_fault = None\<rparr>"

text \<open>A time control that offers the options \<^verbatim>\<open>["", "09:00", "10:30"]\<close>.\<close>

definition three_times :: dropdown where
  "three_times =
     \<lparr>dd_options = Inr [an_option [], an_option ''09:00'', an_option ''10:30''],
      dd_select = Inr ()\<rparr>"

text \<open>A form with no busy indicator, a resolved date and the three time options.\<close>

definition open_form :: form where
  "open_form =
     \<lparr>busy_error = Inr None, date_click = Inr (),
      date_input = Inr (Some (Inr (Some ''2024-05-01''))),
      time_dropdown = Inr (Some three_times)\<rparr>"

text \<open>The same form with the busy indicator present and visible.\<close>

definition busy_form :: form where
  "busy_form = open_form\<lparr>busy_error := Inr (Some (Inr True))\<rparr>"

text \<open>The same form when the click on the date control times out.\<close>

definition stuck_date_form :: form where
  "stuck_date_form = open_form\<lparr>date_click := Inl (TimeoutError ''Timeout 30000ms exceeded.'')\<rparr>"

text \<open>The same form when selecting the time option fails.\<close>

definition stuck_time_form :: form where
  "stuck_time_form =
     open_form\<lparr>time_dropdown :=
       Inr (Some (three_times\<lparr>dd_select := Inl (OtherError ''Element is not attached'')\<rparr>))\<rparr>"

text \<open>A submit control that is enabled; clicking it raises the confirmation dialog.\<close>

definition enabled_button :: button where
  "enabled_button = \<lparr>is_disabled_resp = Inr False, click_resp = Inr True\<rparr>"

text \<open>A location whose page answers every call, with the given form.\<close>

definition a_location :: "string \<Rightarrow> form \<Rightarrow> location" where
  "a_location name f =
     \<lparr>loc_option = an_option name, select_resp = Inr (), wait_submit = Inr (),
      submit_button = Inr (Some enabled_button), loc_form = f\<rparr>"

text \<open>A location where the submit control never shows: the bounded wait times out.\<close>

definition no_submit_location :: "string \<Rightarrow> location" where
  "no_submit_location name =
     (a_location name open_form)
       \<lparr>wait_submit := Inl (TimeoutError ''Timeout 15000ms exceeded.''),
        submit_button := Inr None\<rparr>"

text \<open>A page where login and navigation succeed, with the given locations.\<close>

definition a_page :: "location list \<Rightarrow> page" where
  "a_page locs =
     \<lparr>goto_login = Inr (), fill_email = Inr (), fill_password = Inr (),
      evaluate_policy = Inr (), click_commit = Inr (), wait_success = Inr (),
      continue_href = Inr (Some ''/en-ca/niv/schedule/12345/continue_actions''),
      goto_appointment = Inr (), wait_load = Inr (),
      facility_options = Inr locs\<rparr>"

definition abc_locations :: "location list" where
  "abc_locations = [a_location ''A'' busy_form, a_location ''B'' open_form,
                    a_location ''C'' open_form]"

definition xy_locations :: "location list" where
  "xy_locations = [no_submit_location ''X'', a_location ''Y'' open_form]"

definition sy_locations :: "location list" where
  "sy_locations = [a_location ''S'' stuck_date_form, a_location ''Y'' open_form]"

text \<open>The credentials of the examples.\<close>

definition a_config :: config where
  "a_config = \<lparr>username = ''user@example.com'', password = ''secret''\<rparr>"

text \<open>A page where every step succeeds and location B has a slot.\<close>

definition booking_page :: page where
  "booking_page = a_page abc_locations"

text \<open>A page whose continue link does not lead to a schedule.\<close>

definition bad_href_page :: page where
  "bad_href_page = (a_page abc_locations)\<lparr>continue_href := Inr (Some ''/en-ca/niv/groups/12345'')\<rparr>"

text \<open>A page where the marker of a successful login never shows.\<close>

definition login_timeout_page :: page where
  "login_timeout_page =
     (a_page abc_locations)\<lparr>wait_success := Inl (TimeoutError ''Timeout 15000ms exceeded.'')\<rparr>"

text \<open>A page whose only location is busy.\<close>

definition no_slot_page :: page where
  "no_slot_page = a_page [a_location ''A'' busy_form]"

text \<open>
  A launch where the browser starts, the context opens and \<^verbatim>\<open>new_page\<close> raises.
\<close>

definition crashed_launch :: launch_resp where
  "crashed_launch =
     NewPageFails 1 2 (OtherError ''Target page, context or browser has been closed'')"

section \<open>Properties of the computations\<close>

lemma fst_io_bind:
  "fst (io_bind m f) = fst m @ (case snd m of Inl e \<Rightarrow> [] | Inr x \<Rightarrow> fst (f x))"
  by (cases m) (simp add: io_bind_def split: prod.splits sum.splits)

lemma snd_io_bind:
  "snd (io_bind m f) = (case snd m of Inl e \<Rightarrow> Inl e | Inr x \<Rightarrow> snd (f x))"
  by (cases m) (simp add: io_bind_def split: prod.splits sum.splits)

lemma fst_io_then:
  "fst (io_then m n) = fst m @ (case snd m of Inl e \<Rightarrow> [] | Inr x \<Rightarrow> fst n)"
  by (simp add: io_then_def fst_io_bind)

lemma snd_io_then:
  "snd (io_then m n) = (case snd m of Inl e \<Rightarrow> Inl e | Inr x \<Rightarrow> snd n)"
  by (simp add: io_then_def snd_io_bind)

lemma fst_io_except:
  "fst (io_except m h) = fst m @ (case snd m of Inl e \<Rightarrow> fst (h e) | Inr x \<Rightarrow> [])"
  by (cases m) (simp add: io_except_def split: prod.splits sum.splits)

lemma snd_io_except:
  "snd (io_except m h) = (case snd m of Inl e \<Rightarrow> snd (h e) | Inr x \<Rightarrow> Inr x)"
  by (cases m) (simp add: io_except_def split: prod.splits sum.splits)

lemma io_prim:
  "fst (io_return x) = []" "snd (io_return x) = Inr x"
  "fst (io_raise e) = []" "snd (io_raise e) = Inl e"
  "fst (driver ev r) = [ev]" "snd (driver ev r) = r"
  "fst (emit ev) = [ev]" "snd (emit ev) = Inr ()"
  "fst (logging lvl msg) = [Log lvl msg]" "snd (logging lvl msg) = Inr ()"
  by (simp_all add: io_return_def io_raise_def driver_def emit_def logging_def)

lemmas io_simps =
  fst_io_bind snd_io_bind fst_io_then snd_io_then fst_io_except snd_io_except io_prim

lemma filter_first:
  assumes "\<forall>x \<in> set pre. \<not> P x" and "P y"
  shows "filter P (pre @ y # post) = y # filter P post"
  using assms by (induction pre) simp_all

lemma io_all_return: "io_all P (io_return x)"
  and io_all_raise: "io_all P (io_raise e)"
  and io_all_driver: "P ev \<Longrightarrow> io_all P (driver ev r)"
  and io_all_emit: "P ev \<Longrightarrow> io_all P (emit ev)"
  and io_all_logging: "P (Log lvl msg) \<Longrightarrow> io_all P (logging lvl msg)"
  by (simp_all add: io_all_def io_prim)

lemma io_all_bind: "io_all P m \<Longrightarrow> (\<And>x. io_all P (f x)) \<Longrightarrow> io_all P (io_bind m f)"
  by (simp add: io_all_def fst_io_bind split: sum.splits)

lemma io_all_then: "io_all P m \<Longrightarrow> io_all P n \<Longrightarrow> io_all P (io_then m n)"
  by (simp add: io_then_def io_all_bind)

lemma io_all_except: "io_all P m \<Longrightarrow> (\<And>e. io_all P (h e)) \<Longrightarrow> io_all P (io_except m h)"
  by (simp add: io_all_def fst_io_except split: sum.splits)

lemma io_all_seq: "(\<And>m. m \<in> set ms \<Longrightarrow> io_all P m) \<Longrightarrow> io_all P (io_seq ms)"
  by (induction ms) (simp_all add: io_all_return io_all_then)

lemmas io_all_intros =
  io_all_return io_all_raise io_all_driver io_all_emit io_all_logging io_all_bind io_all_then
  io_all_except

lemmas example_defs = an_option_def three_times_def open_form_def busy_form_def
  stuck_date_form_def stuck_time_form_def enabled_button_def a_location_def
  no_submit_location_def a_page_def

lemmas script_defs = select_date_and_time_def select_date_and_time_body_def select_time_def
  get_value_attribute_def inner_text_def fault_resp_def map_resp_def nonempty_value_def
  has_value_def click_submit_def location_body_def check_and_reschedule_def

lemma facility_selections_simps:
  "facility_selections [] = []"
  "facility_selections (t @ u) = facility_selections t @ facility_selections u"
  by (simp_all add: facility_selections_def)

lemma facility_selections_none:
  "list_all (\<lambda>ev. \<forall>s v. ev \<noteq> PageSelectOption s v) t \<Longrightarrow> facility_selections t = []"
  by (induction t) (auto simp: facility_selections_def split: event.splits)

lemma count_list_none: "list_all (\<lambda>ev. ev \<noteq> x) t \<Longrightarrow> count_list t x = 0"
  by (induction t) auto

section \<open>The scanner: select_date_and_time\<close>

lemma busy_is_not_date_or_time:
  "BUSY_INDICATOR \<noteq> DATE_CONTROL" "BUSY_INDICATOR \<noteq> TIME_CONTROL"
  by (simp_all add: BUSY_INDICATOR_def DATE_CONTROL_def TIME_CONTROL_def)

text \<open>
  Claim C6. When the "no availability" indicator is found on the page and reports that
  it is visible, \<^verbatim>\<open>select_date_and_time\<close> returns \<open>False\<close> at once: the only calls into
  the driver are the query for the indicator and the visibility test, followed by one
  warning in the log, and no call addresses the date control or the time control.
\<close>

theorem busy_short_circuit:
  assumes "busy_error f = Inr (Some (Inr True))"
  shows "select_date_and_time f =
           ([QuerySelector BUSY_INDICATOR, ElemIsVisible (Elem BUSY_INDICATOR),
             Log WARNING ''System is busy. No date or time available.''], Inr False)
         \<and> (\<forall>ev \<in> set (fst (select_date_and_time f)).
               event_target ev \<noteq> Some DATE_CONTROL \<and> event_target ev \<noteq> Some TIME_CONTROL)"
proof -
  have eq: "select_date_and_time f =
           ([QuerySelector BUSY_INDICATOR, ElemIsVisible (Elem BUSY_INDICATOR),
             Log WARNING ''System is busy. No date or time available.''], Inr False)"
    using assms
    by (simp add: prod_eq_iff select_date_and_time_def select_date_and_time_body_def io_simps)
  show ?thesis unfolding eq using busy_is_not_date_or_time by simp
qed

theorem busy_short_circuit_witness:
  "busy_error busy_form = Inr (Some (Inr True))
   \<and> select_date_and_time busy_form =
       ([QuerySelector BUSY_INDICATOR, ElemIsVisible (Elem BUSY_INDICATOR),
         Log WARNING ''System is busy. No date or time available.''], Inr False)"
  using busy_short_circuit [of busy_form]
  by (simp add: busy_form_def)

lemma select_time_first:
  assumes "dd_options dd = Inr (pre @ el # post)"
    and "\<forall>x \<in> set pre. opt_value x = None \<or> opt_value x = Some []"
    and "opt_value el = Some v" and "v \<noteq> []" and "attr_fault el = None"
  shows "fst (select_time dd) =
           [ElemQuerySelectorAll (Elem TIME_CONTROL) TIME_OPTIONS,
            ElemGetAttribute (OptionElem TIME_OPTIONS (Some v)) ''value'',
            ElemSelectOption (Elem TIME_CONTROL) (Some v)]
           @ (case dd_select dd of
                Inl e \<Rightarrow> []
              | Inr u \<Rightarrow> [Log INFO (''Selected available time: '' @ v)])"
    and "snd (select_time dd) = (case dd_select dd of Inl e \<Rightarrow> Inl e | Inr u \<Rightarrow> Inr True)"
proof -
  have "\<forall>x \<in> set pre. \<not> nonempty_value x"
    using assms(2) by (auto simp: nonempty_value_def)
  moreover have "nonempty_value el"
    using assms(3,4) by (simp add: nonempty_value_def)
  ultimately have f: "filter nonempty_value (pre @ el # post) = el # filter nonempty_value post"
    by (rule filter_first)
  show "fst (select_time dd) =
           [ElemQuerySelectorAll (Elem TIME_CONTROL) TIME_OPTIONS,
            ElemGetAttribute (OptionElem TIME_OPTIONS (Some v)) ''value'',
            ElemSelectOption (Elem TIME_CONTROL) (Some v)]
           @ (case dd_select dd of
                Inl e \<Rightarrow> []
              | Inr u \<Rightarrow> [Log INFO (''Selected available time: '' @ v)])"
    using assms(1,3,5) f
    by (simp add: select_time_def io_simps map_resp_def get_value_attribute_def fault_resp_def
        split: sum.splits)
  show "snd (select_time dd) = (case dd_select dd of Inl e \<Rightarrow> Inl e | Inr u \<Rightarrow> Inr True)"
    using assms(1,3,5) f
    by (simp add: select_time_def io_simps map_resp_def get_value_attribute_def fault_resp_def
        split: sum.splits)
qed

text \<open>
  Claim C5. Whatever options the time control offers, once the scanner reaches it (no
  visible busy indicator, the date control clicked and holding a non-empty date), the
  one value it hands to \<^verbatim>\<open>select_option\<close> is the value of the first option, in document
  order, whose value is not empty: the options before it (\<open>pre\<close>) have no value or an
  empty one, the options after it (\<open>post\<close>) are arbitrary and play no part, and the
  values are never compared with one another. The scanner then returns \<open>True\<close> unless
  the selection itself raises.
\<close>

theorem first_fit_time:
  assumes "busy_error f = Inr None \<or> busy_error f = Inr (Some (Inr False))"
    and "date_click f = Inr ()"
    and "date_input f = Inr (Some (Inr (Some d)))" and "d \<noteq> []"
    and "time_dropdown f = Inr (Some dd)"
    and "dd_options dd = Inr (pre @ el # post)"
    and "\<forall>x \<in> set pre. opt_value x = None \<or> opt_value x = Some []"
    and "opt_value el = Some v" and "v \<noteq> []" and "attr_fault el = None"
  shows "time_selections (fst (select_date_and_time f)) = [Some v]
         \<and> snd (select_date_and_time f) =
             (case dd_select dd of Inl e \<Rightarrow> Inr False | Inr u \<Rightarrow> Inr True)"
proof -
  note st = select_time_first [OF assms(6-10)]
  have t: "time_selections (fst (select_time dd)) = [Some v]"
    unfolding st by (simp add: time_selections_def split: sum.splits)
  have body: "time_selections (fst (select_date_and_time_body f)) = [Some v]
      \<and> snd (select_date_and_time_body f) = snd (select_time dd)"
    using assms(1-5) t
    by (auto simp: select_date_and_time_body_def io_simps time_selections_def)
  show ?thesis
    using body st(2)
    by (simp add: select_date_and_time_def io_simps time_selections_def split: sum.splits)
qed

text \<open>With the options \<^verbatim>\<open>["", "09:00", "10:30"]\<close> the scanner selects \<^verbatim>\<open>"09:00"\<close>.\<close>

theorem first_fit_time_witness:
  "time_selections (fst (select_date_and_time open_form)) = [Some ''09:00'']
   \<and> snd (select_date_and_time open_form) = Inr True"
  using first_fit_time [of open_form "''2024-05-01''" three_times "[an_option []]"
      "an_option ''09:00''" "[an_option ''10:30'']" "''09:00''"]
  by (simp add: open_form_def three_times_def an_option_def)

lemma scanner_events:
  assumes "\<And>lvl msg. P (Log lvl msg)" "\<And>s. P (QuerySelector s)" "\<And>s. P (Click s)"
    "\<And>r a. P (ElemGetAttribute r a)" "\<And>r. P (ElemIsVisible r)"
    "\<And>r s. P (ElemQuerySelectorAll r s)" "\<And>r v. P (ElemSelectOption r v)"
  shows "io_all P (select_date_and_time f)"
  unfolding select_date_and_time_def select_date_and_time_body_def select_time_def
    get_value_attribute_def
  by (intro io_all_intros assms | simp split: option.split list.split | intro conjI impI allI)+

lemma scanner_no_facility_selection:
  "facility_selections (fst (select_date_and_time f)) = []"
  by (rule facility_selections_none, fold io_all_def, rule scanner_events) simp_all

lemma scanner_no_click:
  "count_list (fst (select_date_and_time f)) (ElemClick r) = 0"
  by (rule count_list_none, fold io_all_def, rule scanner_events) simp_all

lemma scanner_returns: "\<exists>b. snd (select_date_and_time f) = Inr b"
  by (cases "snd (select_date_and_time_body f)")
     (auto simp: select_date_and_time_def io_simps)




section \<open>The sweep: check_and_reschedule\<close>

lemma location_body_selection:
  assumes "snd (location_body a) = Inr r"
  shows "facility_selections (fst (location_body a)) = [opt_value (loc_option a)]"
  using assms scanner_no_facility_selection [of "loc_form a"]
  by (auto simp: location_body_def inner_text_def get_value_attribute_def fault_resp_def
      click_submit_def io_simps facility_selections_def
      split: sum.splits option.splits if_splits)

lemma location_body_clicks:
  "snd (location_body a) = Inr False \<Longrightarrow>
     count_list (fst (location_body a)) (ElemClick (Elem SUBMIT_CONTROL)) = 0"
  "snd (location_body a) = Inr True \<Longrightarrow>
     count_list (fst (location_body a)) (ElemClick (Elem SUBMIT_CONTROL)) = 1"
  using scanner_no_click [of "loc_form a" "Elem SUBMIT_CONTROL"]
  by (auto simp: location_body_def inner_text_def get_value_attribute_def fault_resp_def
      click_submit_def io_simps
      split: sum.splits option.splits if_splits)

lemma for_each_location_prefix:
  assumes "\<forall>a \<in> set pre. snd (location_body a) = Inr False"
  shows "for_each_location (pre @ ls) =
           (concat (map (\<lambda>a. fst (location_body a)) pre) @ fst (for_each_location ls),
            snd (for_each_location ls))"
  using assms by (induction pre) (simp_all add: io_simps prod_eq_iff)

lemma for_each_location_stop:
  "snd (location_body l) = Inr True \<Longrightarrow> for_each_location (l # ls) = (fst (location_body l), Inr True)"
  "snd (location_body l) = Inl e \<Longrightarrow> for_each_location (l # ls) = (fst (location_body l), Inl e)"
  by (simp_all add: io_simps prod_eq_iff)

lemma check_and_reschedule_unfold:
  assumes "facility_options pg = Inr locs"
  shows "check_and_reschedule pg =
     (case snd (for_each_location (filter has_value locs)) of
        Inl e \<Rightarrow>
          (QuerySelectorAll FACILITY_OPTIONS # fst (for_each_location (filter has_value locs))
             @ [Log ERROR (''Error during location check and reschedule: '' @ exn_str e)],
           Inr False)
      | Inr r \<Rightarrow>
          (QuerySelectorAll FACILITY_OPTIONS # fst (for_each_location (filter has_value locs)),
           Inr r))"
  using assms
  by (simp add: check_and_reschedule_def io_simps map_resp_def prod_eq_iff split: sum.splits)

text \<open>
  When a pass of the loop body returns \<open>True\<close> (a slot was found and the submit control
  clicked), and when it raises.
\<close>

lemma location_body_True_iff:
  "snd (location_body l) = Inr True \<longleftrightarrow>
     text_fault (loc_option l) = None \<and> attr_fault (loc_option l) = None
     \<and> select_resp l = Inr () \<and> wait_submit l = Inr ()
     \<and> (\<exists>b. submit_button l = Inr (Some b) \<and> is_disabled_resp b = Inr False
            \<and> snd (select_date_and_time (loc_form l)) = Inr True
            \<and> (\<exists>d. click_resp b = Inr d))"
  by (auto simp: location_body_def inner_text_def get_value_attribute_def fault_resp_def
      click_submit_def io_simps
      split: sum.splits option.splits if_splits)

lemma location_body_raises_iff:
  "snd (location_body l) = Inl e \<longleftrightarrow>
     text_fault (loc_option l) = Some e
     \<or> text_fault (loc_option l) = None \<and>
        (attr_fault (loc_option l) = Some e
         \<or> attr_fault (loc_option l) = None \<and>
            (select_resp l = Inl e
             \<or> select_resp l = Inr () \<and>
                (wait_submit l = Inl e
                 \<or> wait_submit l = Inr () \<and>
                    (submit_button l = Inl e
                     \<or> (\<exists>b. submit_button l = Inr (Some b) \<and>
                            (is_disabled_resp b = Inl e
                             \<or> is_disabled_resp b = Inr False
                                \<and> snd (select_date_and_time (loc_form l)) = Inr True
                                \<and> click_resp b = Inl e))))))"
  using scanner_returns [of "loc_form l"]
  by (auto simp: location_body_def inner_text_def get_value_attribute_def fault_resp_def
      click_submit_def io_simps
      split: sum.splits option.splits if_splits)

text \<open>
  Claim C4. The sweep visits the locations in the order of the options of the facility
  selector and stops at the first one whose pass returns \<open>True\<close>: when the passes for the
  locations \<open>pre\<close> run to their end without a booking and the pass for \<open>b\<close> finds a slot
  and clicks the submit control, the trace is the passes of \<open>pre\<close>, in order, followed by
  the pass of \<open>b\<close>; the facility control is set to the locations of \<open>pre\<close> and then to
  \<open>b\<close> and to nothing else, so no location of \<open>post\<close> is visited; and the one click on
  the submit control is in the pass of \<open>b\<close>.
\<close>

theorem sweep_order_and_early_exit:
  assumes "facility_options pg = Inr locs"
    and "filter has_value locs = pre @ b # post"
    and "\<forall>a \<in> set pre. snd (location_body a) = Inr False"
    and "snd (location_body b) = Inr True"
  shows "check_and_reschedule pg =
           (QuerySelectorAll FACILITY_OPTIONS
              # concat (map (\<lambda>a. fst (location_body a)) pre) @ fst (location_body b),
            Inr True)
         \<and> facility_selections (fst (check_and_reschedule pg)) =
             map (\<lambda>a. opt_value (loc_option a)) (pre @ [b])
         \<and> count_list (concat (map (\<lambda>a. fst (location_body a)) pre))
             (ElemClick (Elem SUBMIT_CONTROL)) = 0
         \<and> count_list (fst (location_body b)) (ElemClick (Elem SUBMIT_CONTROL)) = 1"
proof -
  have loop: "for_each_location (pre @ b # post) =
      (concat (map (\<lambda>a. fst (location_body a)) pre) @ fst (location_body b), Inr True)"
    using for_each_location_prefix [OF assms(3), of "b # post"]
      for_each_location_stop(1) [OF assms(4), of post]
    by simp
  have eq: "check_and_reschedule pg =
           (QuerySelectorAll FACILITY_OPTIONS
              # concat (map (\<lambda>a. fst (location_body a)) pre) @ fst (location_body b),
            Inr True)"
    using check_and_reschedule_unfold [OF assms(1)] assms(2) loop by simp
  have pre_sel: "facility_selections (concat (map (\<lambda>a. fst (location_body a)) pre)) =
      map (\<lambda>a. opt_value (loc_option a)) pre"
    using assms(3)
    by (induction pre) (auto simp: facility_selections_simps intro: location_body_selection)
  have sel: "facility_selections (fst (check_and_reschedule pg)) =
      map (\<lambda>a. opt_value (loc_option a)) (pre @ [b])"
  proof -
    have "facility_selections (fst (check_and_reschedule pg)) =
        facility_selections [QuerySelectorAll FACILITY_OPTIONS]
        @ facility_selections (concat (map (\<lambda>a. fst (location_body a)) pre))
        @ facility_selections (fst (location_body b))"
      unfolding eq by (simp add: facility_selections_def)
    moreover have "facility_selections [QuerySelectorAll FACILITY_OPTIONS] = []"
      by (simp add: facility_selections_def)
    ultimately show ?thesis
      using pre_sel location_body_selection [OF assms(4)] by simp
  qed
  have pre_click: "count_list (concat (map (\<lambda>a. fst (location_body a)) pre))
             (ElemClick (Elem SUBMIT_CONTROL)) = 0"
    using assms(3) by (induction pre) (simp_all add: location_body_clicks(1))
  show ?thesis
    using eq sel pre_click location_body_clicks(2) [OF assms(4)] by simp
qed

text \<open>Locations A, B and C, where A is busy and B has a slot: A, then B, and never C.\<close>

theorem sweep_order_and_early_exit_witness:
  "snd (location_body (a_location ''A'' busy_form)) = Inr False
   \<and> snd (location_body (a_location ''B'' open_form)) = Inr True
   \<and> snd (check_and_reschedule (a_page abc_locations)) = Inr True
   \<and> facility_selections (fst (check_and_reschedule (a_page abc_locations)))
       = [Some ''A'', Some ''B'']"
  using sweep_order_and_early_exit [of "a_page abc_locations" abc_locations
      "[a_location ''A'' busy_form]" "a_location ''B'' open_form"
      "[a_location ''C'' open_form]"]
  by (simp add: abc_locations_def example_defs script_defs io_simps)

text \<open>
  Claim C3, as amended. An exception raised inside the scanner is caught there: the pass
  for that location goes on as for a location without a slot (the log record, the pause
  between locations) and the loop continues with the next location. An exception raised
  by any other step of the loop body (reading the text or the value of the option,
  selecting the facility, waiting for the submit control, querying it, asking whether it
  is disabled, clicking it) leaves the loop: the handler around the whole loop logs it
  and \<^verbatim>\<open>check_and_reschedule\<close> returns \<open>False\<close>, so the locations after it are not visited.
\<close>

theorem sweep_exception_handling:
  "(text_fault (loc_option l) = None \<and> attr_fault (loc_option l) = None
    \<and> select_resp l = Inr () \<and> wait_submit l = Inr ()
    \<and> submit_button l = Inr (Some b) \<and> is_disabled_resp b = Inr False
    \<and> snd (select_date_and_time_body (loc_form l)) = Inl e
    \<longrightarrow> for_each_location (l # ls) =
          (fst (location_body l) @ fst (for_each_location ls), snd (for_each_location ls))
        \<and> fst (location_body l) =
            [ElemInnerText (OptionElem FACILITY_OPTIONS (opt_value (loc_option l))),
             ElemGetAttribute (OptionElem FACILITY_OPTIONS (opt_value (loc_option l))) ''value'',
             PageSelectOption FACILITY_CONTROL (opt_value (loc_option l)),
             Log INFO (''Checking location: '' @ opt_text (loc_option l)),
             WaitForSelector SUBMIT_CONTROL PAGE_TIMEOUT,
             QuerySelector SUBMIT_CONTROL,
             ElemIsDisabled (Elem SUBMIT_CONTROL)]
            @ fst (select_date_and_time_body (loc_form l))
            @ [Log ERROR (''Error selecting date and time: '' @ exn_str e),
               Log INFO (''No available appointments at '' @ opt_text (loc_option l) @ ''.''),
               Sleep SLEEP_AFTER_SELECT])
   \<and> (snd (location_body l) = Inl e'
      \<and> facility_options pg = Inr locs \<and> filter has_value locs = pre @ l # post
      \<and> (\<forall>a \<in> set pre. snd (location_body a) = Inr False)
      \<longrightarrow> check_and_reschedule pg =
            (QuerySelectorAll FACILITY_OPTIONS
               # concat (map (\<lambda>a. fst (location_body a)) pre) @ fst (location_body l)
               @ [Log ERROR (''Error during location check and reschedule: '' @ exn_str e')],
             Inr False))"
proof (intro conjI impI)
  assume a: "text_fault (loc_option l) = None \<and> attr_fault (loc_option l) = None
    \<and> select_resp l = Inr () \<and> wait_submit l = Inr ()
    \<and> submit_button l = Inr (Some b) \<and> is_disabled_resp b = Inr False
    \<and> snd (select_date_and_time_body (loc_form l)) = Inl e"
  then have scan: "select_date_and_time (loc_form l) =
      (fst (select_date_and_time_body (loc_form l))
         @ [Log ERROR (''Error selecting date and time: '' @ exn_str e)], Inr False)"
    by (simp add: select_date_and_time_def io_simps prod_eq_iff)
  from a show "fst (location_body l) =
            [ElemInnerText (OptionElem FACILITY_OPTIONS (opt_value (loc_option l))),
             ElemGetAttribute (OptionElem FACILITY_OPTIONS (opt_value (loc_option l))) ''value'',
             PageSelectOption FACILITY_CONTROL (opt_value (loc_option l)),
             Log INFO (''Checking location: '' @ opt_text (loc_option l)),
             WaitForSelector SUBMIT_CONTROL PAGE_TIMEOUT,
             QuerySelector SUBMIT_CONTROL,
             ElemIsDisabled (Elem SUBMIT_CONTROL)]
            @ fst (select_date_and_time_body (loc_form l))
            @ [Log ERROR (''Error selecting date and time: '' @ exn_str e),
               Log INFO (''No available appointments at '' @ opt_text (loc_option l) @ ''.''),
               Sleep SLEEP_AFTER_SELECT]"
    by (simp add: location_body_def inner_text_def get_value_attribute_def fault_resp_def
        io_simps scan)
  from a have "snd (location_body l) = Inr False"
    by (simp add: location_body_def inner_text_def get_value_attribute_def fault_resp_def
        io_simps scan)
  then show "for_each_location (l # ls) =
          (fst (location_body l) @ fst (for_each_location ls), snd (for_each_location ls))"
    by (simp add: io_simps prod_eq_iff)
next
  assume b: "snd (location_body l) = Inl e'
      \<and> facility_options pg = Inr locs \<and> filter has_value locs = pre @ l # post
      \<and> (\<forall>a \<in> set pre. snd (location_body a) = Inr False)"
  then have "for_each_location (pre @ l # post) =
      (concat (map (\<lambda>a. fst (location_body a)) pre) @ fst (location_body l), Inl e')"
    using for_each_location_prefix [of pre "l # post"] for_each_location_stop(2) [of l e' post]
    by simp
  with b show "check_and_reschedule pg =
            (QuerySelectorAll FACILITY_OPTIONS
               # concat (map (\<lambda>a. fst (location_body a)) pre) @ fst (location_body l)
               @ [Log ERROR (''Error during location check and reschedule: '' @ exn_str e')],
             Inr False)"
    using check_and_reschedule_unfold [of pg locs] by simp
qed

text \<open>
  Location S, where the scanner times out, is followed by a visit of Y; location X,
  where the wait for the submit control times out, ends the sweep.
\<close>

theorem sweep_exception_handling_witness:
  "snd (select_date_and_time_body stuck_date_form) = Inl (TimeoutError ''Timeout 30000ms exceeded.'')
   \<and> for_each_location sy_locations =
       (fst (location_body (a_location ''S'' stuck_date_form))
          @ fst (location_body (a_location ''Y'' open_form)), Inr True)
   \<and> snd (location_body (no_submit_location ''X'')) = Inl (TimeoutError ''Timeout 15000ms exceeded.'')
   \<and> check_and_reschedule (a_page xy_locations) =
       ([QuerySelectorAll FACILITY_OPTIONS,
         ElemInnerText (OptionElem FACILITY_OPTIONS (Some ''X'')),
         ElemGetAttribute (OptionElem FACILITY_OPTIONS (Some ''X'')) ''value'',
         PageSelectOption FACILITY_CONTROL (Some ''X''),
         Log INFO ''Checking location: X'',
         WaitForSelector SUBMIT_CONTROL PAGE_TIMEOUT,
         Log ERROR ''Error during location check and reschedule: Timeout 15000ms exceeded.''],
        Inr False)"
  using sweep_exception_handling [where l = "no_submit_location ''X''"
      and e' = "TimeoutError ''Timeout 15000ms exceeded.''"
      and pg = "a_page xy_locations" and locs = xy_locations and pre = "[]"
      and post = "[a_location ''Y'' open_form]"]
    sweep_exception_handling [where l = "a_location ''S'' stuck_date_form"
      and b = enabled_button and e = "TimeoutError ''Timeout 30000ms exceeded.''"
      and ls = "[a_location ''Y'' open_form]"]
  by (simp add: xy_locations_def sy_locations_def example_defs script_defs io_simps
      prod_eq_iff)

text \<open>
  Locations X and Y: the wait for the submit control of X times out. Y alone would be
  booked, but the sweep returns \<open>False\<close> and the facility control is set to X only: the
  exception at X ends the sweep and Y is never visited.
\<close>

theorem sweep_aborts_counterexample:
  "snd (location_body (a_location ''Y'' open_form)) = Inr True
   \<and> snd (check_and_reschedule (a_page xy_locations)) = Inr False
   \<and> facility_selections (fst (check_and_reschedule (a_page xy_locations))) = [Some ''X'']
   \<and> snd (check_and_reschedule (a_page [a_location ''Y'' open_form])) = Inr True"
  by (simp add: xy_locations_def example_defs script_defs io_simps facility_selections_def)

section \<open>The regular expression of the navigator, characterised\<close>

lemma strip_prefix_Some_iff: "strip_prefix p s = Some r \<longleftrightarrow> s = p @ r"
  by (induction p s rule: strip_prefix.induct) auto

lemma digits_then_other:
  assumes "\<forall>x \<in> set ds. is_digit x" and "\<not> is_digit c"
  shows "takeWhile is_digit (ds @ c # t) = ds" and "dropWhile is_digit (ds @ c # t) = c # t"
  using assms by (induction ds) simp_all

text \<open>The pattern with an arbitrary text before the digits and after them.\<close>

lemma match_pattern_iff:
  assumes "\<not> is_digit c"
  shows "(case strip_prefix p s of
            None \<Rightarrow> None
          | Some r \<Rightarrow>
              (let ds = takeWhile is_digit r in
               if ds \<noteq> [] \<and> strip_prefix (c # q) (dropWhile is_digit r) \<noteq> None
               then Some ds else None)) = Some ds
         \<longleftrightarrow> ds \<noteq> [] \<and> list_all is_digit ds \<and> (\<exists>rest. s = p @ ds @ (c # q) @ rest)"
    (is "?L = Some ds \<longleftrightarrow> ?R")
proof
  assume m: "?L = Some ds"
  then obtain r where r: "strip_prefix p s = Some r"
    by (cases "strip_prefix p s") simp_all
  from m have ds: "ds = takeWhile is_digit r" "ds \<noteq> []"
    and c: "strip_prefix (c # q) (dropWhile is_digit r) \<noteq> None"
    unfolding r by (simp_all add: Let_def split: if_splits)
  from c obtain rest where rest: "dropWhile is_digit r = (c # q) @ rest"
    using strip_prefix_Some_iff by blast
  have "r = ds @ (c # q) @ rest"
    using takeWhile_dropWhile_id [of is_digit r] ds(1) rest by simp
  moreover have "s = p @ r"
    using r strip_prefix_Some_iff by blast
  moreover have "list_all is_digit ds"
    unfolding ds(1) list_all_iff using set_takeWhileD by fast
  ultimately show ?R
    using ds(2) by blast
next
  assume a: ?R
  then obtain rest where s: "s = p @ (ds @ c # q @ rest)"
    by auto
  have r: "strip_prefix p s = Some (ds @ c # q @ rest)"
    unfolding strip_prefix_Some_iff s ..
  have all: "\<forall>x \<in> set ds. is_digit x"
    using a by (simp add: list_all_iff)
  note tw = digits_then_other [OF all assms, of "q @ rest"]
  have sp: "strip_prefix (c # q) (c # q @ rest) = Some rest"
    unfolding strip_prefix_Some_iff by simp
  show "?L = Some ds"
    using a by (simp only: r tw sp Let_def option.case) simp
qed

lemma match_here_Some_iff:
  "match_here s = Some ds \<longleftrightarrow>
     ds \<noteq> [] \<and> list_all is_digit ds
     \<and> (\<exists>rest. s = ''/schedule/'' @ ds @ ''/continue_actions'' @ rest)"
  unfolding match_here_def
  by (rule match_pattern_iff) (simp add: is_digit_def)

lemma re_search_None_iff:
  "re_search s = None \<longleftrightarrow> (\<forall>pre suf. s = pre @ suf \<longrightarrow> match_here suf = None)"
proof (induction s)
  case Nil
  show ?case by simp
next
  case (Cons c cs)
  show ?case
  proof
    assume n: "re_search (c # cs) = None"
    then have h: "match_here (c # cs) = None" and t: "re_search cs = None"
      by (auto split: option.splits)
    show "\<forall>pre suf. c # cs = pre @ suf \<longrightarrow> match_here suf = None"
    proof (intro allI impI)
      fix pre suf assume e: "c # cs = pre @ suf"
      show "match_here suf = None"
      proof (cases pre)
        case Nil
        then show ?thesis using e h by simp
      next
        case (Cons p ps)
        then have "cs = ps @ suf" using e by simp
        then show ?thesis using t Cons.IH by blast
      qed
    qed
  next
    assume a: "\<forall>pre suf. c # cs = pre @ suf \<longrightarrow> match_here suf = None"
    then have h: "match_here (c # cs) = None"
      by (metis append_Nil)
    have "\<forall>pre suf. cs = pre @ suf \<longrightarrow> match_here suf = None"
      using a by (metis append_Cons)
    then have "re_search cs = None"
      using Cons.IH by blast
    then show "re_search (c # cs) = None"
      using h by simp
  qed
qed

lemma re_search_found:
  assumes "re_search s \<noteq> None"
  obtains pre suf ds where "s = pre @ suf" "match_here suf = Some ds"
proof -
  have "\<not> (\<forall>pre suf. s = pre @ suf \<longrightarrow> match_here suf = None)"
    using assms unfolding re_search_None_iff .
  then have "\<exists>pre suf. s = pre @ suf \<and> match_here suf \<noteq> None"
    unfolding not_all not_imp .
  then obtain pre suf where s: "s = pre @ suf" and m: "match_here suf \<noteq> None"
    by (elim conjE exE)
  from m obtain ds where "match_here suf = Some ds"
    by (cases "match_here suf") simp_all
  with s show ?thesis by (rule that)
qed

lemma re_search_finds:
  assumes "match_here suf \<noteq> None" and "s = pre @ suf"
  shows "re_search s \<noteq> None"
proof
  assume "re_search s = None"
  then have "\<forall>pre suf. s = pre @ suf \<longrightarrow> match_here suf = None"
    unfolding re_search_None_iff .
  then have "match_here suf = None"
    using assms(2) by (elim allE [where x = pre] allE [where x = suf] impE)
  with assms(1) show False by simp
qed

text \<open>
  The search finds a match exactly when the address holds \<^verbatim>\<open>/schedule/\<close>, a non-empty run
  of digits and \<^verbatim>\<open>/continue_actions\<close> one after the other.
\<close>

lemma re_search_matches_pattern:
  "re_search s \<noteq> None \<longleftrightarrow>
     (\<exists>pre ds rest. s = pre @ ''/schedule/'' @ ds @ ''/continue_actions'' @ rest
        \<and> ds \<noteq> [] \<and> list_all is_digit ds)"
proof
  assume "re_search s \<noteq> None"
  then obtain pre suf ds where s: "s = pre @ suf" and m: "match_here suf = Some ds"
    by (rule re_search_found)
  from m have "ds \<noteq> [] \<and> list_all is_digit ds
     \<and> (\<exists>rest. suf = ''/schedule/'' @ ds @ ''/continue_actions'' @ rest)"
    by (rule match_here_Some_iff [THEN iffD1])
  then obtain rest where suf: "suf = ''/schedule/'' @ ds @ ''/continue_actions'' @ rest"
    and d: "ds \<noteq> []" "list_all is_digit ds"
    by (elim conjE exE)
  have "s = pre @ ''/schedule/'' @ ds @ ''/continue_actions'' @ rest
        \<and> ds \<noteq> [] \<and> list_all is_digit ds"
    by (intro conjI) (simp only: s suf, rule d, rule d)
  then show "\<exists>pre ds rest. s = pre @ ''/schedule/'' @ ds @ ''/continue_actions'' @ rest
        \<and> ds \<noteq> [] \<and> list_all is_digit ds"
    by (intro exI)
next
  assume "\<exists>pre ds rest. s = pre @ ''/schedule/'' @ ds @ ''/continue_actions'' @ rest
        \<and> ds \<noteq> [] \<and> list_all is_digit ds"
  then obtain pre ds rest where s: "s = pre @ ''/schedule/'' @ ds @ ''/continue_actions'' @ rest"
    and d: "ds \<noteq> []" "list_all is_digit ds"
    by (elim conjE exE)
  define suf where "suf = ''/schedule/'' @ ds @ ''/continue_actions'' @ rest"
  have "ds \<noteq> [] \<and> list_all is_digit ds
     \<and> (\<exists>rest. suf = ''/schedule/'' @ ds @ ''/continue_actions'' @ rest)"
    by (intro conjI exI) (rule d, rule d, rule suf_def)
  then have "match_here suf = Some ds"
    by (rule match_here_Some_iff [THEN iffD2])
  then have "match_here suf \<noteq> None"
    by simp
  moreover have "s = pre @ suf"
    by (simp only: s suf_def)
  ultimately show "re_search s \<noteq> None"
    by (rule re_search_finds)
qed

text \<open>The group of the leftmost match is returned; an empty run of digits is no match.\<close>

lemma re_search_examples:
  "re_search ''/en-ca/niv/schedule/12345/continue_actions'' = Some ''12345''"
  "re_search ''/schedule/12/schedule/345/continue_actions?x'' = Some ''345''"
  "re_search ''/schedule//continue_actions'' = None"
  by code_simp+

section \<open>The orchestrator: login_and_schedule\<close>

subsection \<open>The events of the page\<close>

lemma page_event_simps:
  "page_event (Log lvl msg)" "page_event (Goto u)" "page_event (Fill s v)"
  "page_event (Evaluate s)" "page_event (Click s)" "page_event (WaitForSelector s n)"
  "page_event (WaitForLoadState s)" "page_event (GetAttribute s a)"
  "page_event (PageSelectOption s v')" "page_event (QuerySelector s)"
  "page_event (QuerySelectorAll s)" "page_event (ElemQuerySelectorAll r s)"
  "page_event (ElemGetAttribute r a)" "page_event (ElemInnerText r)"
  "page_event (ElemIsVisible r)" "page_event (ElemIsDisabled r)"
  "page_event (ElemSelectOption r v')" "page_event (ElemClick r)"
  "page_event OnDialog" "page_event DialogAccept"
  "page_event (Sleep SLEEP_AFTER_SELECT)"
  by (simp_all add: page_event_def)

lemma login_events: "io_all page_event (login cfg pg)"
  unfolding login_def
  by (intro io_all_intros io_all_seq page_event_simps
      | simp split: exn.split | intro conjI impI allI | erule disjE)+

lemma navigate_events: "io_all page_event (navigate_to_appointment pg)"
  unfolding navigate_to_appointment_def
  by (intro io_all_intros io_all_seq page_event_simps
      | simp split: option.split | intro conjI impI allI | erule disjE)+

lemma location_body_events: "io_all page_event (location_body l)"
  unfolding location_body_def inner_text_def get_value_attribute_def click_submit_def
  by (intro io_all_intros scanner_events page_event_simps
      | simp split: option.split | intro conjI impI allI)+

lemma for_each_location_events: "io_all page_event (for_each_location ls)"
  by (induction ls)
     (simp_all add: io_all_bind io_all_then io_all_logging io_all_return page_event_simps
        location_body_events)

lemma check_and_reschedule_events: "io_all page_event (check_and_reschedule pg)"
  unfolding check_and_reschedule_def
  by (intro io_all_intros for_each_location_events page_event_simps)

lemma try_statements_events: "io_all page_event (try_statements cfg pg)"
  unfolding try_statements_def
  by (intro io_all_intros login_events navigate_events check_and_reschedule_events
        page_event_simps | simp | intro conjI impI allI)+

lemma except_clauses_simps:
  "snd (except_clauses e) = Inr False"
  "io_all page_event (except_clauses e)"
  by (cases e; simp add: except_clauses_def io_simps io_all_def page_event_simps)+

lemma handled_events: "io_all page_event (io_except (try_statements cfg pg) except_clauses)"
  by (intro io_all_except try_statements_events except_clauses_simps)

lemma handled_result:
  "snd (io_except m except_clauses) = (case snd m of Inl e \<Rightarrow> Inr False | Inr x \<Rightarrow> Inr x)"
  by (simp add: snd_io_except except_clauses_simps split: sum.splits)

lemma page_event_counts:
  assumes "list_all page_event t"
  shows "count_list t (ChromiumLaunch h) = 0" "count_list t (CloseContext c) = 0"
    "count_list t (CloseBrowser b) = 0" "count_list t (Sleep RETRY_INTERVAL) = 0"
  using assms
  by (induction t)
     (auto simp: page_event_def RETRY_INTERVAL_def SLEEP_AFTER_SELECT_def split: event.splits)

lemma try_statements_result:
  "snd (try_statements cfg pg) = Inr True \<longleftrightarrow>
     snd (login cfg pg) = Inr () \<and> snd (navigate_to_appointment pg) = Inr ()
     \<and> snd (check_and_reschedule pg) = Inr True"
  by (auto simp: try_statements_def io_simps split: sum.splits)

subsection \<open>One pass of the loop\<close>

lemma cycle_parts:
  "cycle cfg r l wd =
     (let tb = try_block cfg r l wd;
          m = io_except (fst tb) except_clauses;
          fb = finally_block (fst (snd tb)) (snd (snd tb))
      in ((case snd m of Inr True \<Rightarrow> Break | Inr False \<Rightarrow> Continue | Inl e \<Rightarrow> Propagate e),
          fst (snd tb), snd fb, fst m @ fst fb))"
  by (simp add: cycle_def case_prod_beta Let_def)

lemma try_block_Launched:
  "try_block cfg (Launched b c pg) l wd =
     (([ChromiumLaunch HEADLESS_MODE, NewContext b, NewPage c] @ fst (try_statements cfg pg),
       snd (try_statements cfg pg)),
      l\<lparr>browser_var := Some b, context_var := Some c, page_var := Some pg\<rparr>,
      wd\<lparr>live := insert c (insert b (live wd))\<rparr>)"
  by (simp add: try_block_def launch_browser_in_incognito_def io_simps prod_eq_iff)

lemma finally_block_bound:
  "finally_block (l\<lparr>browser_var := Some b, context_var := Some c, page_var := p\<rparr>) wd =
     ([CloseContext c, CloseBrowser b, Sleep RETRY_INTERVAL], wd\<lparr>live := live wd - {c} - {b}\<rparr>)"
  by (simp add: finally_block_def close_context_def close_browser_def)

lemma cycle_Launched:
  "cycle cfg (Launched b c pg) l wd =
     ((if snd (try_statements cfg pg) = Inr True then Break else Continue),
      l\<lparr>browser_var := Some b, context_var := Some c, page_var := Some pg\<rparr>,
      wd\<lparr>live := live wd - {b, c}\<rparr>,
      [ChromiumLaunch HEADLESS_MODE, NewContext b, NewPage c]
        @ fst (io_except (try_statements cfg pg) except_clauses)
        @ [CloseContext c, CloseBrowser b, Sleep RETRY_INTERVAL])"
proof -
  have w: "insert b (live wd) - {c} - {b} = live wd - {b, c}"
    by auto
  have r: "(case snd (io_except (x, snd (try_statements cfg pg)) except_clauses) of
             Inr True \<Rightarrow> Break | Inr False \<Rightarrow> Continue | Inl e \<Rightarrow> Propagate e) =
           (if snd (try_statements cfg pg) = Inr True then Break else Continue)" for x
    by (simp add: handled_result split: sum.splits bool.splits)
  show ?thesis
    unfolding cycle_parts try_block_Launched Let_def fst_conv snd_conv finally_block_bound r
    by (simp add: fst_io_except w split: sum.splits)
qed

lemma finally_block_trace:
  "fst (finally_block l wd) =
     (case context_var l of None \<Rightarrow> [] | Some c \<Rightarrow> [CloseContext c])
     @ (case browser_var l of None \<Rightarrow> [] | Some b \<Rightarrow> [CloseBrowser b])
     @ [Sleep RETRY_INTERVAL]"
  by (simp add: finally_block_def close_context_def close_browser_def case_prod_beta
      split: option.splits)

lemma try_block_failed:
  "try_block cfg (LaunchFails e) l wd = (([ChromiumLaunch HEADLESS_MODE], Inl e), l, wd)"
  "try_block cfg (NewContextFails b e) l wd =
     (([ChromiumLaunch HEADLESS_MODE, NewContext b], Inl e), l, wd\<lparr>live := insert b (live wd)\<rparr>)"
  "try_block cfg (NewPageFails b c e) l wd =
     (([ChromiumLaunch HEADLESS_MODE, NewContext b, NewPage c], Inl e), l,
      wd\<lparr>live := insert c (insert b (live wd))\<rparr>)"
  by (simp_all add: try_block_def launch_browser_in_incognito_def)

lemma try_block_trace:
  "\<exists>t. fst (fst (try_block cfg r l wd)) = ChromiumLaunch HEADLESS_MODE # t
       \<and> list_all (\<lambda>ev. page_event ev \<or> (\<exists>h. ev = NewContext h) \<or> (\<exists>h. ev = NewPage h)) t"
proof (cases r)
  case (Launched b c pg)
  have "list_all page_event (fst (try_statements cfg pg))"
    using try_statements_events [of cfg pg] by (simp add: io_all_def)
  then have "list_all (\<lambda>ev. page_event ev \<or> (\<exists>h. ev = NewContext h) \<or> (\<exists>h. ev = NewPage h))
      (fst (try_statements cfg pg))"
    by (simp add: list_all_iff)
  then show ?thesis
    by (simp add: Launched try_block_Launched)
qed (simp_all add: try_block_failed)

lemma cycle_control: "fst (cycle cfg r l wd) = (if books cfg r then Break else Continue)"
proof (cases r)
  case (Launched b c pg)
  then show ?thesis
    by (simp add: cycle_Launched books_def try_statements_result)
qed (simp_all add: cycle_parts Let_def try_block_failed handled_result books_def)

lemma cycle_trace:
  "\<exists>t. trace_of (cycle cfg r l wd) = ChromiumLaunch HEADLESS_MODE # t @ [Sleep RETRY_INTERVAL]
       \<and> list_all (\<lambda>ev. page_event ev \<or> (\<exists>h. ev = NewContext h) \<or> (\<exists>h. ev = NewPage h)
                         \<or> (\<exists>h. ev = CloseContext h) \<or> (\<exists>h. ev = CloseBrowser h)) t"
proof -
  let ?Q = "\<lambda>ev. page_event ev \<or> (\<exists>h. ev = NewContext h) \<or> (\<exists>h. ev = NewPage h)
                         \<or> (\<exists>h. ev = CloseContext h) \<or> (\<exists>h. ev = CloseBrowser h)"
  obtain t where t: "fst (fst (try_block cfg r l wd)) = ChromiumLaunch HEADLESS_MODE # t"
    and pt: "list_all (\<lambda>ev. page_event ev \<or> (\<exists>h. ev = NewContext h) \<or> (\<exists>h. ev = NewPage h)) t"
    using try_block_trace by blast
  define u where "u = (case snd (fst (try_block cfg r l wd)) of
                         Inl e \<Rightarrow> fst (except_clauses e) | Inr x \<Rightarrow> [])"
  define l' where "l' = fst (snd (try_block cfg r l wd))"
  define v where "v = (case context_var l' of None \<Rightarrow> [] | Some c \<Rightarrow> [CloseContext c])
     @ (case browser_var l' of None \<Rightarrow> [] | Some b \<Rightarrow> [CloseBrowser b])"
  have pu: "list_all page_event u"
    using except_clauses_simps(2) by (simp add: u_def io_all_def split: sum.splits)
  have pv: "list_all ?Q v"
    by (simp add: v_def split: option.splits)
  have "trace_of (cycle cfg r l wd) =
      ChromiumLaunch HEADLESS_MODE # (t @ u @ v) @ [Sleep RETRY_INTERVAL]"
    by (simp add: trace_of_def cycle_parts Let_def fst_io_except t u_def v_def l'_def
        finally_block_trace)
  moreover have "list_all ?Q (t @ u @ v)"
    using pt pu pv by (auto simp: list_all_iff)
  ultimately show ?thesis by blast
qed

lemma trace_of_simps:
  "trace_of (a, b, c, d) = d" "trace_of (s, snd x) = trace_of x"
  by (simp_all add: trace_of_def)

lemma cycle_LaunchFails:
  "cycle cfg (LaunchFails e) l wd =
     (Continue, l, snd (finally_block l wd),
      ChromiumLaunch HEADLESS_MODE # fst (except_clauses e) @ fst (finally_block l wd))"
  by (simp add: cycle_parts Let_def try_block_failed io_simps except_clauses_simps)

lemma cycle_counts:
  "count_list (trace_of (cycle cfg r l wd)) (ChromiumLaunch HEADLESS_MODE) = 1"
  "count_list (trace_of (cycle cfg r l wd)) (Sleep RETRY_INTERVAL) = 1"
  "last (trace_of (cycle cfg r l wd)) = Sleep RETRY_INTERVAL"
  "trace_of (cycle cfg r l wd) \<noteq> []"
  "list_all (\<lambda>ev. case ev of Sleep n \<Rightarrow> n = RETRY_INTERVAL \<or> n = SLEEP_AFTER_SELECT | _ \<Rightarrow> True)
     (trace_of (cycle cfg r l wd))"
proof -
  let ?Q = "\<lambda>ev. page_event ev \<or> (\<exists>h. ev = NewContext h) \<or> (\<exists>h. ev = NewPage h)
                         \<or> (\<exists>h. ev = CloseContext h) \<or> (\<exists>h. ev = CloseBrowser h)"
  obtain t where t: "trace_of (cycle cfg r l wd) =
      ChromiumLaunch HEADLESS_MODE # t @ [Sleep RETRY_INTERVAL]" and q: "list_all ?Q t"
    using cycle_trace by blast
  have c1: "count_list t (ChromiumLaunch HEADLESS_MODE) = 0"
    using q by (induction t) (auto simp: page_event_def)
  have c2: "count_list t (Sleep RETRY_INTERVAL) = 0"
    using q by (induction t) (auto simp: page_event_def RETRY_INTERVAL_def SLEEP_AFTER_SELECT_def)
  have c3: "list_all (\<lambda>ev. case ev of Sleep n \<Rightarrow> n = RETRY_INTERVAL \<or> n = SLEEP_AFTER_SELECT
                               | _ \<Rightarrow> True) t"
    using q by (induction t) (auto simp: page_event_def split: event.splits)
  show "count_list (trace_of (cycle cfg r l wd)) (ChromiumLaunch HEADLESS_MODE) = 1"
    unfolding t using c1 by simp
  show "count_list (trace_of (cycle cfg r l wd)) (Sleep RETRY_INTERVAL) = 1"
    unfolding t using c2 by simp
  show "last (trace_of (cycle cfg r l wd)) = Sleep RETRY_INTERVAL"
    unfolding t by simp
  show "trace_of (cycle cfg r l wd) \<noteq> []"
    unfolding t by simp
  show "list_all (\<lambda>ev. case ev of Sleep n \<Rightarrow> n = RETRY_INTERVAL \<or> n = SLEEP_AFTER_SELECT | _ \<Rightarrow> True)
     (trace_of (cycle cfg r l wd))"
    unfolding t using c3 by simp
qed

subsection \<open>The loop\<close>

lemma while_true_Cons:
  "while_true cfg (r # rs) l wd =
     (if books cfg r then (Exited, snd (cycle cfg r l wd))
      else (fst (while_true cfg rs (fst (snd (cycle cfg r l wd)))
                   (fst (snd (snd (cycle cfg r l wd))))),
            fst (snd (while_true cfg rs (fst (snd (cycle cfg r l wd)))
                   (fst (snd (snd (cycle cfg r l wd)))))),
            fst (snd (snd (while_true cfg rs (fst (snd (cycle cfg r l wd)))
                   (fst (snd (snd (cycle cfg r l wd))))))),
            trace_of (cycle cfg r l wd)
              @ trace_of (while_true cfg rs (fst (snd (cycle cfg r l wd)))
                   (fst (snd (snd (cycle cfg r l wd)))))))"
  using cycle_control [of cfg r l wd]
  by (cases "cycle cfg r l wd") (auto simp: trace_of_def split: prod.splits if_splits)

lemma while_true_failing_append:
  assumes "\<forall>r \<in> set rs. \<not> books cfg r"
  shows "fst (while_true cfg rs l wd) = Looping
         \<and> while_true cfg (rs @ rs') l wd =
             (fst (while_true cfg rs' (fst (snd (while_true cfg rs l wd)))
                     (fst (snd (snd (while_true cfg rs l wd))))),
              fst (snd (while_true cfg rs' (fst (snd (while_true cfg rs l wd)))
                     (fst (snd (snd (while_true cfg rs l wd)))))),
              fst (snd (snd (while_true cfg rs' (fst (snd (while_true cfg rs l wd)))
                     (fst (snd (snd (while_true cfg rs l wd))))))),
              trace_of (while_true cfg rs l wd)
                @ trace_of (while_true cfg rs' (fst (snd (while_true cfg rs l wd)))
                     (fst (snd (snd (while_true cfg rs l wd))))))"
  using assms
proof (induction rs arbitrary: l wd)
  case Nil
  show ?case by (simp add: trace_of_def)
next
  case (Cons r rs)
  then have nb: "\<not> books cfg r" and rest: "\<forall>r \<in> set rs. \<not> books cfg r"
    by simp_all
  note ih = Cons.IH [OF rest, of "fst (snd (cycle cfg r l wd))"
      "fst (snd (snd (cycle cfg r l wd)))"]
  show ?case
    using ih nb
    by (simp add: while_true_Cons trace_of_def del: while_true.simps(2))
qed


lemma while_true_failing_counts:
  assumes "\<forall>r \<in> set rs. \<not> books cfg r"
  shows "count_list (trace_of (while_true cfg rs l wd)) (ChromiumLaunch HEADLESS_MODE) = length rs"
    and "count_list (trace_of (while_true cfg rs l wd)) (Sleep RETRY_INTERVAL) = length rs"
    and "rs \<noteq> [] \<longrightarrow> last (trace_of (while_true cfg rs l wd)) = Sleep RETRY_INTERVAL"
  using assms
proof (induction rs arbitrary: l wd)
  case Nil
  {
    case 1 show ?case by (simp add: trace_of_def)
  next
    case 2 show ?case by (simp add: trace_of_def)
  next
    case 3 show ?case by simp
  }
next
  case (Cons r rs)
  {
    case 1
    then show ?case
      using Cons.IH(1) [of "fst (snd (cycle cfg r l wd))" "fst (snd (snd (cycle cfg r l wd)))"]
      by (simp add: while_true_Cons trace_of_simps cycle_counts
          del: while_true.simps(2))
  next
    case 2
    then show ?case
      using Cons.IH(2) [of "fst (snd (cycle cfg r l wd))" "fst (snd (snd (cycle cfg r l wd)))"]
      by (simp add: while_true_Cons trace_of_simps cycle_counts
          del: while_true.simps(2))
  next
    case 3
    then show ?case
      using Cons.IH(3) [of "fst (snd (cycle cfg r l wd))" "fst (snd (snd (cycle cfg r l wd)))"]
      by (cases rs)
         (simp_all add: while_true_Cons trace_of_simps
            cycle_counts del: while_true.simps(2))
  }
qed

lemma while_true_sleeps:
  "list_all (\<lambda>ev. case ev of Sleep n \<Rightarrow> n = RETRY_INTERVAL \<or> n = SLEEP_AFTER_SELECT | _ \<Rightarrow> True)
     (trace_of (while_true cfg rs l wd))"
proof (induction rs arbitrary: l wd)
  case Nil
  show ?case by (simp add: trace_of_def)
next
  case (Cons r rs)
  have "trace_of (Exited, snd (cycle cfg r l wd)) = trace_of (cycle cfg r l wd)"
    by (simp add: trace_of_def)
  then show ?case
    using Cons [of "fst (snd (cycle cfg r l wd))" "fst (snd (snd (cycle cfg r l wd)))"]
      cycle_counts(5) [of cfg r l wd]
    by (simp add: while_true_Cons trace_of_simps
        del: while_true.simps(2))
qed


lemma navigate_fails:
  assumes "continue_href pg = Inl e0 \<or> continue_href pg = Inr None
           \<or> (\<exists>h. continue_href pg = Inr (Some h) \<and> re_search h = None)"
  shows "\<exists>e. navigate_to_appointment pg =
           ([GetAttribute CONTINUE_LINK ''href'',
             Log ERROR (''Error navigating to the appointment page: '' @ exn_str e)], Inl e)"
  using assms
  by (auto simp: navigate_to_appointment_def io_simps prod_eq_iff)

lemma try_statements_navigation_raises:
  assumes "snd (login cfg pg) = Inr ()" and "snd (navigate_to_appointment pg) = Inl e"
  shows "io_except (try_statements cfg pg) except_clauses =
           (fst (login cfg pg) @ fst (navigate_to_appointment pg) @ fst (except_clauses e),
            Inr False)"
  using assms by (simp add: try_statements_def io_simps prod_eq_iff except_clauses_simps)

lemma try_statements_booked:
  assumes "snd (login cfg pg) = Inr ()" and "snd (navigate_to_appointment pg) = Inr ()"
    and "snd (check_and_reschedule pg) = Inr True"
  shows "io_except (try_statements cfg pg) except_clauses =
           (fst (login cfg pg) @ fst (navigate_to_appointment pg)
              @ fst (check_and_reschedule pg)
              @ [Log INFO ''Appointment successfully rescheduled. Exiting.''],
            Inr True)"
  using assms by (simp add: try_statements_def io_simps prod_eq_iff)

lemmas orchestrator_defs = login_def navigate_to_appointment_def try_statements_def
  except_clauses_def appointment_url_def match_here_def is_digit_def type_error_def
  attribute_error_def books_def

lemma booking_page_books: "books a_config (Launched 3 4 booking_page)"
  by (simp add: booking_page_def abc_locations_def example_defs script_defs orchestrator_defs
      a_config_def io_simps)

lemma failing_examples:
  "\<not> books a_config (Launched 1 2 login_timeout_page)"
  "\<not> books a_config (Launched 3 4 bad_href_page)"
  "\<not> books a_config (Launched 5 6 no_slot_page)"
  "\<not> books a_config (LaunchFails (OtherError ''Executable does not exist''))"
  by (simp_all add: login_timeout_page_def bad_href_page_def no_slot_page_def
      abc_locations_def example_defs script_defs orchestrator_defs a_config_def io_simps)

subsection \<open>The claims about the loop\<close>

text \<open>
  The path where the launch returns. Take any pass of the loop whose launch returns a
  browser \<open>b\<close> and a context \<open>c\<close>, whatever the login, the navigation and the sweep do on
  its page (a booking, a raised timeout, any other raised exception, a sweep that finds
  nothing). The pass ends by \<^verbatim>\<open>break\<close> or goes on, and no exception leaves it. Its trace
  is the launch, then events of the page only, then the \<^verbatim>\<open>finally\<close> block: \<open>c\<close> is
  closed, \<open>b\<close> is closed, and the script sleeps. Within the pass \<open>c\<close> and \<open>b\<close> are each
  closed exactly once, and neither is open afterwards. When the loop goes on, the launch
  of the next pass comes after these events. When the next launch raises at once, the
  variables still hold \<open>c\<close> and \<open>b\<close>, the \<^verbatim>\<open>finally\<close> block of that pass closes both once
  more, nothing changes and the loop goes on. And when the launch of the very first pass
  raises at once, no variable is bound, the \<^verbatim>\<open>finally\<close> block closes nothing and the loop
  goes on.
\<close>

theorem session_released_once:
  "case cycle cfg (Launched b c pg) l wd of
     (ctl, l', wd', t) \<Rightarrow>
       (ctl = Break \<or> ctl = Continue)
       \<and> (\<exists>t0. t = [ChromiumLaunch HEADLESS_MODE, NewContext b, NewPage c] @ t0
                     @ [CloseContext c, CloseBrowser b, Sleep RETRY_INTERVAL]
              \<and> list_all page_event t0)
       \<and> count_list t (CloseContext c) = 1 \<and> count_list t (CloseBrowser b) = 1
       \<and> b \<notin> live wd' \<and> c \<notin> live wd'
       \<and> (ctl = Continue \<longrightarrow>
            (\<forall>r rs. \<exists>u. trace_of (while_true cfg (Launched b c pg # r # rs) l wd) =
                          t @ ChromiumLaunch HEADLESS_MODE # u))
       \<and> (\<forall>e. cycle cfg (LaunchFails e) l' wd' =
                 (Continue, l', wd',
                  ChromiumLaunch HEADLESS_MODE # fst (except_clauses e)
                    @ [CloseContext c, CloseBrowser b, Sleep RETRY_INTERVAL]))
       \<and> (\<forall>e. cycle cfg (LaunchFails e) unbound wd =
                 (Continue, unbound, wd,
                  ChromiumLaunch HEADLESS_MODE # fst (except_clauses e)
                    @ [Sleep RETRY_INTERVAL]))"
proof -
  define t0 where "t0 = fst (io_except (try_statements cfg pg) except_clauses)"
  define l' where "l' = l\<lparr>browser_var := Some b, context_var := Some c, page_var := Some pg\<rparr>"
  define wd' where "wd' = wd\<lparr>live := live wd - {b, c}\<rparr>"
  define t where "t = [ChromiumLaunch HEADLESS_MODE, NewContext b, NewPage c] @ t0
                     @ [CloseContext c, CloseBrowser b, Sleep RETRY_INTERVAL]"
  define ctl where "ctl = (if snd (try_statements cfg pg) = Inr True then Break else Continue)"
  have cyc: "cycle cfg (Launched b c pg) l wd = (ctl, l', wd', t)"
    by (simp add: cycle_Launched ctl_def l'_def wd'_def t_def t0_def)
  have p0: "list_all page_event t0"
    using handled_events [of cfg pg] by (simp add: io_all_def t0_def)
  have counts: "count_list t (CloseContext c) = 1" "count_list t (CloseBrowser b) = 1"
    using page_event_counts(2,3) [OF p0] by (simp_all add: t_def)
  have rel: "b \<notin> live wd'" "c \<notin> live wd'"
    by (simp_all add: wd'_def)
  have fin: "finally_block l' wd' = ([CloseContext c, CloseBrowser b, Sleep RETRY_INTERVAL], wd')"
  proof -
    have "live wd' - {c} - {b} = live wd'"
      using rel by auto
    then show ?thesis
      unfolding l'_def finally_block_bound by simp
  qed
  have again: "cycle cfg (LaunchFails e) l' wd' =
                 (Continue, l', wd',
                  ChromiumLaunch HEADLESS_MODE # fst (except_clauses e)
                    @ [CloseContext c, CloseBrowser b, Sleep RETRY_INTERVAL])" for e
    by (simp add: cycle_LaunchFails fin)
  have nxt: "\<exists>u. trace_of (while_true cfg (Launched b c pg # r # rs) l wd) =
                          t @ ChromiumLaunch HEADLESS_MODE # u" if "ctl = Continue" for r rs
  proof -
    have nb: "\<not> books cfg (Launched b c pg)"
      using that cycle_control [of cfg "Launched b c pg" l wd] cyc
      by (auto split: if_splits)
    obtain v where v: "trace_of (cycle cfg r l' wd') = ChromiumLaunch HEADLESS_MODE # v"
      using cycle_trace [of cfg r l' wd'] by auto
    have "\<exists>w. trace_of (while_true cfg (r # rs) l' wd') = trace_of (cycle cfg r l' wd') @ w"
      by (simp add: while_true_Cons trace_of_simps
          del: while_true.simps(2))
    then obtain w where w: "trace_of (while_true cfg (r # rs) l' wd') =
        ChromiumLaunch HEADLESS_MODE # v @ w"
      using v by auto
    have "trace_of (while_true cfg (Launched b c pg # r # rs) l wd) =
        t @ trace_of (while_true cfg (r # rs) l' wd')"
      using nb
      by (simp add: while_true_Cons [of cfg "Launched b c pg"] cyc
          trace_of_simps del: while_true.simps(2))
    then show ?thesis
      using w by simp
  qed
  have first: "cycle cfg (LaunchFails e) unbound wd =
                 (Continue, unbound, wd,
                  ChromiumLaunch HEADLESS_MODE # fst (except_clauses e)
                    @ [Sleep RETRY_INTERVAL])" for e
    by (simp add: cycle_LaunchFails finally_block_def unbound_def)
  show ?thesis
    unfolding cyc using p0 counts rel again nxt first
    by (auto simp: ctl_def t_def)
qed

text \<open>A pass whose login times out: the context and the browser are closed once each.\<close>

theorem session_released_once_witness:
  "cycle a_config (Launched 1 2 login_timeout_page) unbound \<lparr>live = {}\<rparr> =
     (Continue,
      \<lparr>browser_var = Some 1, context_var = Some 2, page_var = Some login_timeout_page\<rparr>,
      \<lparr>live = {}\<rparr>,
      [ChromiumLaunch HEADLESS_MODE, NewContext 1, NewPage 2,
       Goto LOGIN_URL, Log INFO ''Opened login page.'',
       Fill EMAIL_INPUT ''user@example.com'', Fill PASSWORD_INPUT ''secret'',
       Evaluate POLICY_SCRIPT, Click COMMIT_BUTTON,
       WaitForSelector LOGIN_SUCCESS PAGE_TIMEOUT,
       Log ERROR ''Login page did not load in time.'',
       Log ERROR (''Timeout error: Timeout 15000ms exceeded.. Retrying in ''
                  @ str_nat RETRY_INTERVAL @ '' seconds...''),
       CloseContext 2, CloseBrowser 1, Sleep RETRY_INTERVAL])
   \<and> count_list (trace_of (cycle a_config (Launched 1 2 login_timeout_page) unbound \<lparr>live = {}\<rparr>))
        (CloseContext 2) = 1"
  using session_released_once [where cfg = a_config and b = 1 and c = 2
      and pg = login_timeout_page and l = unbound and wd = "\<lparr>live = {}\<rparr>"]
  by (simp add: cycle_Launched unbound_def a_config_def login_timeout_page_def a_page_def
      orchestrator_defs io_simps trace_of_def)

text \<open>
  The path where the launch raises after the browser has started. Nothing is handed to
  the loop: in the first pass no variable is bound and the \<^verbatim>\<open>finally\<close> block closes
  nothing, so what the launch had opened stays open.
\<close>

lemma partial_launch_leaks:
  "cycle cfg (NewContextFails b e) unbound \<lparr>live = {}\<rparr> =
     (Continue, unbound, \<lparr>live = {b}\<rparr>,
      [ChromiumLaunch HEADLESS_MODE, NewContext b] @ fst (except_clauses e)
        @ [Sleep RETRY_INTERVAL])"
  by (simp add: cycle_parts Let_def try_block_failed io_simps except_clauses_simps
      finally_block_def unbound_def)

lemma partial_launch_leaks_page:
  "cycle cfg (NewPageFails b c e) unbound wd =
     (Continue, unbound, wd\<lparr>live := insert c (insert b (live wd))\<rparr>,
      [ChromiumLaunch HEADLESS_MODE, NewContext b, NewPage c] @ fst (except_clauses e)
        @ [Sleep RETRY_INTERVAL])"
  by (simp add: cycle_parts Let_def try_block_failed io_simps except_clauses_simps
      finally_block_def unbound_def)

lemma crashed_launch_pass:
  "cycle a_config crashed_launch unbound \<lparr>live = {}\<rparr> =
     (Continue, unbound, \<lparr>live = {2, 1}\<rparr>,
      [ChromiumLaunch HEADLESS_MODE, NewContext 1, NewPage 2,
       Log ERROR (''Encountered an error: Target page, context or browser has been closed''
                  @ ''. Retrying in '' @ str_nat RETRY_INTERVAL @ '' seconds...''),
       Sleep RETRY_INTERVAL])"
  unfolding crashed_launch_def partial_launch_leaks_page
  by (simp add: except_clauses_def io_simps del: str_nat.simps)

lemma booking_after_crash_pass:
  "cycle a_config (Launched 3 4 booking_page) unbound \<lparr>live = {2, 1}\<rparr> =
     (Break, \<lparr>browser_var = Some 3, context_var = Some 4, page_var = Some booking_page\<rparr>,
      \<lparr>live = {2, 1}\<rparr>,
      [ChromiumLaunch HEADLESS_MODE, NewContext 3, NewPage 4]
        @ fst (io_except (try_statements a_config booking_page) except_clauses)
        @ [CloseContext 4, CloseBrowser 3, Sleep RETRY_INTERVAL])"
proof -
  have bk: "snd (try_statements a_config booking_page) = Inr True"
    using booking_page_books by (simp add: try_statements_result books_def)
  have w: "{2, 1} - {3, 4} = {2, 1::nat}"
    by auto
  show ?thesis
    unfolding cycle_Launched bk by (simp add: unbound_def w del: str_nat.simps)
qed

text \<open>
  Claim C1. Every pass is to release, exactly once and before the next pass acquires a
  new one, the session it acquired at its start, whatever ends the pass, a raised
  exception included. The \<^verbatim>\<open>finally\<close> block does so when the launch returns (theorem
  \<open>session_released_once\<close>), but not when the launch raises after it has opened the
  browser. Here the first launch starts browser 1, opens context 2, and \<^verbatim>\<open>new_page\<close>
  raises: the pass binds no variable, logs the error, closes nothing and sleeps. The
  next pass launches browser 3, books and returns. Browser 1 and context 2 are closed
  nowhere in the run and are still open when \<^verbatim>\<open>login_and_schedule\<close> returns.
\<close>

theorem launch_failure_leaks_session:
  "cycle a_config crashed_launch unbound \<lparr>live = {}\<rparr> =
     (Continue, unbound, \<lparr>live = {2, 1}\<rparr>,
      [ChromiumLaunch HEADLESS_MODE, NewContext 1, NewPage 2,
       Log ERROR (''Encountered an error: Target page, context or browser has been closed''
                  @ ''. Retrying in '' @ str_nat RETRY_INTERVAL @ '' seconds...''),
       Sleep RETRY_INTERVAL])
   \<and> fst (login_and_schedule a_config [crashed_launch, Launched 3 4 booking_page]) = Exited
   \<and> trace_of (login_and_schedule a_config [crashed_launch, Launched 3 4 booking_page]) =
       trace_of (cycle a_config crashed_launch unbound \<lparr>live = {}\<rparr>)
       @ trace_of (cycle a_config (Launched 3 4 booking_page) unbound \<lparr>live = {2, 1}\<rparr>)
   \<and> count_list (trace_of (login_and_schedule a_config
                     [crashed_launch, Launched 3 4 booking_page])) (CloseBrowser 1) = 0
   \<and> count_list (trace_of (login_and_schedule a_config
                     [crashed_launch, Launched 3 4 booking_page])) (CloseContext 2) = 0
   \<and> live (fst (snd (snd (login_and_schedule a_config
                     [crashed_launch, Launched 3 4 booking_page])))) = {2, 1}"
proof -
  define t0 where "t0 = fst (io_except (try_statements a_config booking_page) except_clauses)"
  define t1 where "t1 = [ChromiumLaunch HEADLESS_MODE, NewContext 1, NewPage 2,
       Log ERROR (''Encountered an error: Target page, context or browser has been closed''
                  @ ''. Retrying in '' @ str_nat RETRY_INTERVAL @ '' seconds...''),
       Sleep RETRY_INTERVAL]"
  define t2 where "t2 = [ChromiumLaunch HEADLESS_MODE, NewContext 3, NewPage 4] @ t0
        @ [CloseContext 4, CloseBrowser 3, Sleep RETRY_INTERVAL]"
  define l2 where
    "l2 = \<lparr>browser_var = Some 3, context_var = Some 4, page_var = Some booking_page\<rparr>"
  have c1: "cycle a_config crashed_launch unbound \<lparr>live = {}\<rparr> =
      (Continue, unbound, \<lparr>live = {2, 1}\<rparr>, t1)"
    unfolding t1_def by (rule crashed_launch_pass)
  have c2: "cycle a_config (Launched 3 4 booking_page) unbound \<lparr>live = {2, 1}\<rparr> =
      (Break, l2, \<lparr>live = {2, 1}\<rparr>, t2)"
    unfolding t2_def t0_def l2_def by (rule booking_after_crash_pass)
  have run: "login_and_schedule a_config [crashed_launch, Launched 3 4 booking_page] =
      (Exited, l2, \<lparr>live = {2, 1}\<rparr>, t1 @ t2)"
    unfolding login_and_schedule_def while_true.simps c1 prod.case control.case c2 ..
  have pe: "list_all page_event t0"
    using handled_events [of a_config booking_page] by (simp add: io_all_def t0_def)
  have z: "count_list t0 (CloseContext 2) = 0" "count_list t0 (CloseBrowser 1) = 0"
    using page_event_counts(2,3) [OF pe] by simp_all
  have k1: "count_list (t1 @ t2) (CloseBrowser 1) = 0"
    unfolding t1_def t2_def using z by (simp del: str_nat.simps)
  have k2: "count_list (t1 @ t2) (CloseContext 2) = 0"
    unfolding t1_def t2_def using z by (simp del: str_nat.simps)
  show ?thesis
    unfolding run c1 c2 trace_of_simps(1) fst_conv snd_conv
    using k1 k2 unfolding t1_def by (simp del: str_nat.simps)
qed



text \<open>
  Claim C9. After any number of passes that do not book (the launch, the login or the
  navigation raises, or the sweep returns \<open>False\<close>), the loop is still running: one
  launch was made and one sleep of \<^verbatim>\<open>RETRY_INTERVAL\<close> seconds taken per pass, the sleep
  last in each pass; no sleep in the trace has another length, but for the pause
  between two locations; and whatever the environment answers next, the next pass
  starts with a launch right after the trace so far. There is no bound on the number
  of passes.
\<close>

theorem retries_without_bound:
  assumes "\<forall>r \<in> set rs. \<not> books cfg r"
  shows "fst (login_and_schedule cfg rs) = Looping
         \<and> count_list (trace_of (login_and_schedule cfg rs)) (ChromiumLaunch HEADLESS_MODE)
             = length rs
         \<and> count_list (trace_of (login_and_schedule cfg rs)) (Sleep RETRY_INTERVAL) = length rs
         \<and> (rs \<noteq> [] \<longrightarrow> last (trace_of (login_and_schedule cfg rs)) = Sleep RETRY_INTERVAL)
         \<and> list_all (\<lambda>ev. case ev of
                             Sleep n \<Rightarrow> n = RETRY_INTERVAL \<or> n = SLEEP_AFTER_SELECT
                           | _ \<Rightarrow> True)
             (trace_of (login_and_schedule cfg rs))
         \<and> (\<forall>r. \<exists>u. trace_of (login_and_schedule cfg (rs @ [r])) =
                      trace_of (login_and_schedule cfg rs) @ ChromiumLaunch HEADLESS_MODE # u)"
proof -
  note app = while_true_failing_append [OF assms, where l = unbound and wd = "\<lparr>live = {}\<rparr>"]
  have nxt: "\<exists>u. trace_of (login_and_schedule cfg (rs @ [r])) =
                      trace_of (login_and_schedule cfg rs) @ ChromiumLaunch HEADLESS_MODE # u" for r
  proof -
    define l' where "l' = fst (snd (while_true cfg rs unbound \<lparr>live = {}\<rparr>))"
    define wd' where "wd' = fst (snd (snd (while_true cfg rs unbound \<lparr>live = {}\<rparr>)))"
    obtain v where v: "trace_of (cycle cfg r l' wd') = ChromiumLaunch HEADLESS_MODE # v"
      using cycle_trace [of cfg r l' wd'] by auto
    have "trace_of (while_true cfg [r] l' wd') = trace_of (cycle cfg r l' wd')"
      by (simp add: while_true_Cons trace_of_simps del: while_true.simps(2))
    moreover have "trace_of (while_true cfg (rs @ [r]) unbound \<lparr>live = {}\<rparr>) =
        trace_of (while_true cfg rs unbound \<lparr>live = {}\<rparr>) @ trace_of (while_true cfg [r] l' wd')"
      using while_true_failing_append [OF assms, where l = unbound and wd = "\<lparr>live = {}\<rparr>"
          and rs' = "[r]", THEN conjunct2] by (simp add: trace_of_simps l'_def wd'_def)
    ultimately show ?thesis
      using v by (simp add: login_and_schedule_def)
  qed
  show ?thesis
    using app [THEN conjunct1] while_true_failing_counts [OF assms, where l = unbound and wd = "\<lparr>live = {}\<rparr>"]
      while_true_sleeps [of cfg rs unbound "\<lparr>live = {}\<rparr>"] nxt
    by (simp add: login_and_schedule_def)
qed

text \<open>A login timeout, a bad continue link and a sweep without a slot: three sleeps.\<close>

theorem retries_without_bound_witness:
  "\<not> books a_config (Launched 1 2 login_timeout_page)
   \<and> \<not> books a_config (Launched 3 4 bad_href_page)
   \<and> \<not> books a_config (Launched 5 6 no_slot_page)
   \<and> fst (login_and_schedule a_config
            [Launched 1 2 login_timeout_page, Launched 3 4 bad_href_page,
             Launched 5 6 no_slot_page]) = Looping
   \<and> count_list (trace_of (login_and_schedule a_config
            [Launched 1 2 login_timeout_page, Launched 3 4 bad_href_page,
             Launched 5 6 no_slot_page])) (Sleep RETRY_INTERVAL) = 3"
  using retries_without_bound [where rs = "[Launched 1 2 login_timeout_page,
             Launched 3 4 bad_href_page, Launched 5 6 no_slot_page]" and cfg = a_config]
    failing_examples
  by simp

text \<open>
  Claim C10. On the pass that books, after the sweep has returned \<open>True\<close> and the exit
  message is logged, the \<^verbatim>\<open>finally\<close> block still runs before the function returns: the
  context is closed, the browser is closed, and the script sleeps \<^verbatim>\<open>RETRY_INTERVAL\<close>
  seconds. These are the last events of the run.
\<close>

theorem teardown_on_success:
  assumes "snd (login cfg pg) = Inr ()" and "snd (navigate_to_appointment pg) = Inr ()"
    and "snd (check_and_reschedule pg) = Inr True"
    and "\<forall>r \<in> set before. \<not> books cfg r"
  shows "fst (login_and_schedule cfg (before @ Launched b c pg # rs)) = Exited
         \<and> trace_of (login_and_schedule cfg (before @ Launched b c pg # rs)) =
             trace_of (login_and_schedule cfg before)
             @ [ChromiumLaunch HEADLESS_MODE, NewContext b, NewPage c]
             @ fst (login cfg pg) @ fst (navigate_to_appointment pg)
             @ fst (check_and_reschedule pg)
             @ [Log INFO ''Appointment successfully rescheduled. Exiting.'',
                CloseContext c, CloseBrowser b, Sleep RETRY_INTERVAL]"
proof -
  define l' where "l' = fst (snd (while_true cfg before unbound \<lparr>live = {}\<rparr>))"
  define wd' where "wd' = fst (snd (snd (while_true cfg before unbound \<lparr>live = {}\<rparr>)))"
  have bk: "books cfg (Launched b c pg)"
    using assms(1-3) by (simp add: books_def)
  have last_pass: "while_true cfg (Launched b c pg # rs) l' wd' =
      (Exited, snd (cycle cfg (Launched b c pg) l' wd'))"
    using bk by (simp add: while_true_Cons del: while_true.simps(2))
  have tr: "trace_of (cycle cfg (Launched b c pg) l' wd') =
      [ChromiumLaunch HEADLESS_MODE, NewContext b, NewPage c]
      @ fst (login cfg pg) @ fst (navigate_to_appointment pg) @ fst (check_and_reschedule pg)
      @ [Log INFO ''Appointment successfully rescheduled. Exiting.'',
         CloseContext c, CloseBrowser b, Sleep RETRY_INTERVAL]"
    by (simp add: cycle_Launched trace_of_simps try_statements_booked [OF assms(1-3)])
  note app = while_true_failing_append [OF assms(4), where l = unbound
      and wd = "\<lparr>live = {}\<rparr>" and rs' = "Launched b c pg # rs", THEN conjunct2]
  show ?thesis
    unfolding login_and_schedule_def
    by (subst app, subst app)
       (simp add: last_pass [unfolded l'_def wd'_def] tr [unfolded l'_def wd'_def]
          trace_of_simps del: while_true.simps(2))
qed

text \<open>A run of one pass that books: it ends with the two closes and a sleep of 60 s.\<close>

theorem teardown_on_success_witness:
  "snd (login a_config booking_page) = Inr ()
   \<and> snd (navigate_to_appointment booking_page) = Inr ()
   \<and> snd (check_and_reschedule booking_page) = Inr True
   \<and> fst (login_and_schedule a_config [Launched 3 4 booking_page]) = Exited
   \<and> trace_of (login_and_schedule a_config [Launched 3 4 booking_page]) =
       [ChromiumLaunch HEADLESS_MODE, NewContext 3, NewPage 4]
       @ fst (login a_config booking_page) @ fst (navigate_to_appointment booking_page)
       @ fst (check_and_reschedule booking_page)
       @ [Log INFO ''Appointment successfully rescheduled. Exiting.'',
          CloseContext 4, CloseBrowser 3, Sleep 60]"
proof -
  have b: "snd (login a_config booking_page) = Inr ()"
    "snd (navigate_to_appointment booking_page) = Inr ()"
    "snd (check_and_reschedule booking_page) = Inr True"
    using booking_page_books by (simp_all add: books_def)
  have e: "trace_of (login_and_schedule a_config []) = []"
    by (simp add: login_and_schedule_def trace_of_simps)
  show ?thesis
    using teardown_on_success [OF b, where before = "[]" and b = 3 and c = 4 and rs = "[]"] b e
    by (simp add: RETRY_INTERVAL_def)
qed

text \<open>
  Claim C7. When the login has returned and the continue link is absent (the driver
  raises, or answers \<open>None\<close>) or its address does not match the regular expression
  (by \<open>re_search_matches_pattern\<close>: it holds no \<^verbatim>\<open>/schedule/<digits>/continue_actions\<close>),
  \<^verbatim>\<open>navigate_to_appointment\<close> logs the error and raises. The pass then goes on to the
  handlers of the loop: the exception is logged, the context and the browser are
  closed, the script sleeps \<^verbatim>\<open>RETRY_INTERVAL\<close> seconds, the loop is still running, and
  the next pass starts with a new launch.
\<close>

theorem navigation_failure_retries:
  assumes "snd (login cfg pg) = Inr ()"
    and "continue_href pg = Inl e0 \<or> continue_href pg = Inr None
         \<or> (\<exists>h. continue_href pg = Inr (Some h) \<and> re_search h = None)"
    and "\<forall>r \<in> set before. \<not> books cfg r"
  shows "\<exists>e. navigate_to_appointment pg =
               ([GetAttribute CONTINUE_LINK ''href'',
                 Log ERROR (''Error navigating to the appointment page: '' @ exn_str e)], Inl e)
           \<and> (case cycle cfg (Launched b c pg) l wd of
                 (ctl, l', wd', t) \<Rightarrow>
                   ctl = Continue
                   \<and> t = [ChromiumLaunch HEADLESS_MODE, NewContext b, NewPage c]
                         @ fst (login cfg pg) @ fst (navigate_to_appointment pg)
                         @ fst (except_clauses e)
                         @ [CloseContext c, CloseBrowser b, Sleep RETRY_INTERVAL]
                   \<and> b \<notin> live wd' \<and> c \<notin> live wd')
           \<and> fst (login_and_schedule cfg (before @ [Launched b c pg])) = Looping
           \<and> (\<forall>r rs. \<exists>u. trace_of (login_and_schedule cfg (before @ Launched b c pg # r # rs)) =
                           trace_of (login_and_schedule cfg (before @ [Launched b c pg]))
                           @ ChromiumLaunch HEADLESS_MODE # u)"
proof -
  obtain e where e: "navigate_to_appointment pg =
               ([GetAttribute CONTINUE_LINK ''href'',
                 Log ERROR (''Error navigating to the appointment page: '' @ exn_str e)], Inl e)"
    using navigate_fails [OF assms(2)] by blast
  then have ne: "snd (navigate_to_appointment pg) = Inl e"
    by simp
  have nb: "\<not> books cfg (Launched b c pg)"
    using ne by (simp add: books_def)
  have ts: "snd (try_statements cfg pg) \<noteq> Inr True"
    using ne by (simp add: try_statements_result)
  have cyc: "case cycle cfg (Launched b c pg) l wd of
                 (ctl, l', wd', t) \<Rightarrow>
                   ctl = Continue
                   \<and> t = [ChromiumLaunch HEADLESS_MODE, NewContext b, NewPage c]
                         @ fst (login cfg pg) @ fst (navigate_to_appointment pg)
                         @ fst (except_clauses e)
                         @ [CloseContext c, CloseBrowser b, Sleep RETRY_INTERVAL]
                   \<and> b \<notin> live wd' \<and> c \<notin> live wd'"
    using ts by (simp add: cycle_Launched try_statements_navigation_raises [OF assms(1) ne])
  have fl: "\<forall>r \<in> set (before @ [Launched b c pg]). \<not> books cfg r"
    using assms(3) nb by simp
  have lp: "fst (login_and_schedule cfg (before @ [Launched b c pg])) = Looping"
    using while_true_failing_append [OF fl, THEN conjunct1]
    by (simp add: login_and_schedule_def)
  have nxt: "\<exists>u. trace_of (login_and_schedule cfg (before @ Launched b c pg # r # rs)) =
                           trace_of (login_and_schedule cfg (before @ [Launched b c pg]))
                           @ ChromiumLaunch HEADLESS_MODE # u" for r rs
  proof -
    define l' where "l' = fst (snd (while_true cfg (before @ [Launched b c pg]) unbound \<lparr>live = {}\<rparr>))"
    define wd' where
      "wd' = fst (snd (snd (while_true cfg (before @ [Launched b c pg]) unbound \<lparr>live = {}\<rparr>)))"
    obtain v where v: "trace_of (cycle cfg r l' wd') = ChromiumLaunch HEADLESS_MODE # v"
      using cycle_trace [of cfg r l' wd'] by auto
    have "\<exists>w. trace_of (while_true cfg (r # rs) l' wd') = trace_of (cycle cfg r l' wd') @ w"
      by (simp add: while_true_Cons trace_of_simps del: while_true.simps(2))
    then obtain w where w: "trace_of (while_true cfg (r # rs) l' wd') =
        ChromiumLaunch HEADLESS_MODE # v @ w"
      using v by auto
    have "trace_of (while_true cfg ((before @ [Launched b c pg]) @ r # rs) unbound \<lparr>live = {}\<rparr>) =
        trace_of (while_true cfg (before @ [Launched b c pg]) unbound \<lparr>live = {}\<rparr>)
        @ trace_of (while_true cfg (r # rs) l' wd')"
      using while_true_failing_append [OF fl, where l = unbound and wd = "\<lparr>live = {}\<rparr>"
          and rs' = "r # rs", THEN conjunct2]
      by (simp add: trace_of_simps l'_def wd'_def del: while_true.simps(2))
    then show ?thesis
      using w by (simp add: login_and_schedule_def)
  qed
  have "navigate_to_appointment pg =
               ([GetAttribute CONTINUE_LINK ''href'',
                 Log ERROR (''Error navigating to the appointment page: '' @ exn_str e)], Inl e)
           \<and> (case cycle cfg (Launched b c pg) l wd of
                 (ctl, l', wd', t) \<Rightarrow>
                   ctl = Continue
                   \<and> t = [ChromiumLaunch HEADLESS_MODE, NewContext b, NewPage c]
                         @ fst (login cfg pg) @ fst (navigate_to_appointment pg)
                         @ fst (except_clauses e)
                         @ [CloseContext c, CloseBrowser b, Sleep RETRY_INTERVAL]
                   \<and> b \<notin> live wd' \<and> c \<notin> live wd')
           \<and> fst (login_and_schedule cfg (before @ [Launched b c pg])) = Looping
           \<and> (\<forall>r rs. \<exists>u. trace_of (login_and_schedule cfg (before @ Launched b c pg # r # rs)) =
                           trace_of (login_and_schedule cfg (before @ [Launched b c pg]))
                           @ ChromiumLaunch HEADLESS_MODE # u)"
    using cyc lp nxt by (simp add: e)
  then show ?thesis
    by (rule exI [where x = e])
qed

text \<open>A continue link that leads elsewhere: the regular expression finds no match.\<close>

theorem navigation_failure_retries_witness:
  "snd (login a_config bad_href_page) = Inr ()
   \<and> re_search ''/en-ca/niv/groups/12345'' = None
   \<and> snd (navigate_to_appointment bad_href_page) =
       Inl (attribute_error ''group'')
   \<and> fst (cycle a_config (Launched 3 4 bad_href_page) unbound \<lparr>live = {}\<rparr>) = Continue
   \<and> fst (login_and_schedule a_config [Launched 3 4 bad_href_page]) = Looping"
proof -
  have lg: "snd (login a_config bad_href_page) = Inr ()"
    by (simp add: bad_href_page_def a_page_def login_def io_simps)
  have rx: "re_search ''/en-ca/niv/groups/12345'' = None"
    by (simp add: match_here_def)
  have hr: "continue_href bad_href_page = Inr (Some ''/en-ca/niv/groups/12345'')"
    by (simp add: bad_href_page_def)
  have nav: "snd (navigate_to_appointment bad_href_page) = Inl (attribute_error ''group'')"
    using hr rx by (simp add: navigate_to_appointment_def io_simps)
  have pre: "continue_href bad_href_page = Inl (OtherError [])
     \<or> continue_href bad_href_page = Inr None
     \<or> (\<exists>h. continue_href bad_href_page = Inr (Some h) \<and> re_search h = None)"
    using hr rx by simp
  have emp: "\<forall>r \<in> set []. \<not> books a_config r"
    by simp
  obtain e where c: "case cycle a_config (Launched 3 4 bad_href_page) unbound \<lparr>live = {}\<rparr> of
                 (ctl, l', wd', t) \<Rightarrow>
                   ctl = Continue
                   \<and> t = [ChromiumLaunch HEADLESS_MODE, NewContext 3, NewPage 4]
                         @ fst (login a_config bad_href_page)
                         @ fst (navigate_to_appointment bad_href_page)
                         @ fst (except_clauses e)
                         @ [CloseContext 4, CloseBrowser 3, Sleep RETRY_INTERVAL]
                   \<and> 3 \<notin> live wd' \<and> 4 \<notin> live wd'"
    and lp: "fst (login_and_schedule a_config ([] @ [Launched 3 4 bad_href_page])) = Looping"
    using navigation_failure_retries [OF lg pre emp, where b = 3 and c = 4 and l = unbound
        and wd = "\<lparr>live = {}\<rparr>"]
    by (elim exE conjE) (rule that, assumption+)
  have "fst (cycle a_config (Launched 3 4 bad_href_page) unbound \<lparr>live = {}\<rparr>) = Continue"
    using c by (cases "cycle a_config (Launched 3 4 bad_href_page) unbound \<lparr>live = {}\<rparr>") simp
  then show ?thesis
    using lg rx nav lp by simp
qed

end
